theory Spec2Isabelle
  imports Main "HOL-Library.Word"
begin

unbundle bit_operations_syntax

section \<open>Values of the program\<close>

text \<open>
  Modelled from the spec: the declaration of \<open>Mode\<close> is in a file of the package that is
  not part of \<open>windows.go\<close>. The spec gives it as an enumerated value of the closed set
  Center, Crop, Fit, Span, Stretch, Tile; in Go it is a named integer type, so a caller
  can pass a value that is none of the six constants. \<open>SetMode\<close> only compares a mode
  with the constants (which the \<open>switch\<close> forces to be pairwise distinct), so the six
  constants are constructors and \<open>Unlisted n\<close> stands for every other value of the type.
\<close>

datatype Mode = Center | Crop | Fit | Span | Stretch | Tile | Unlisted int

text \<open>
  A Go \<open>error\<close> value. \<open>EINVAL\<close> is what the string conversions of package \<open>syscall\<close>
  return, \<open>ErrNotExist\<close> and \<open>ErrUnexpectedType\<close> are the two errors of package
  \<open>registry\<close>, \<open>Errno n\<close> is any other error the operating system reports.
\<close>

datatype error = EINVAL | ErrNotExist | ErrUnexpectedType | Errno nat

text \<open>
  How a call of a Go function ends: it returns to its caller, the process ends with an
  exit status (\<open>os.Exit\<close>, \<open>log.Fatalf\<close>), or it panics.
\<close>

datatype 'a outcome = Return 'a | Exit int | Panic string

section \<open>The operating system\<close>

datatype hive = LOCAL_MACHINE | CURRENT_USER

datatype access = QUERY_VALUE | SET_VALUE

text \<open>
  A registry value with its type. A string value is kept as the Go string that package
  \<open>registry\<close> writes to it and reads from it (the UTF-16 form in between is not
  modelled); \<open>REG_OTHER\<close> stands for the types that are neither strings nor integers.
\<close>

datatype reg_value = SZ string | EXPAND_SZ string | DWORD "32 word" | QWORD "64 word" | REG_OTHER

text \<open>An open registry key is named by its hive and path.\<close>

type_synonym key = "hive \<times> string"

text \<open>The pointer argument of \<open>SystemParametersInfoW\<close>: a buffer of a number of UTF-16
  code units, or the NUL-terminated UTF-16 form of a Go string.\<close>

datatype pvParam = PvBuffer nat | PvString string

text \<open>Every request the program makes to the operating system, with its arguments.\<close>

datatype os_call =
    RegOpenKey hive string access
  | RegCreateKey hive string access
  | RegCloseKey hive string
  | RegGetStringValue hive string string
  | RegGetIntegerValue hive string string
  | RegSetStringValue hive string string string
  | RegSetDWordValue hive string string "32 word"
  | SystemParametersInfoW nat nat pvParam nat
  | ExecRun "string list"
  | OsExecutable

text \<open>
  The world the program runs in. \<open>registry\<close> is the content of the registry (a key that
  exists maps its value names to values). \<open>os_fail\<close> is the verdict of the operating
  system on each request: \<open>Some e\<close> when it refuses the request with the error \<open>e\<close>
  (access denied, a command that exits with a failure, ...). \<open>spi_buffer\<close> is what
  \<open>SystemParametersInfoW\<close> leaves in the buffer of a \<open>SPI_GETDESKWALLPAPER\<close> request,
  \<open>exe_path\<close> the path of the running executable, \<open>range_seed\<close> the order in which the
  Go runtime iterates over a map with the given keys, and \<open>trace\<close> the requests made so
  far, oldest first.

  The verdict depends on the request only. Within one call of \<open>Get\<close>, \<open>SetFromFile\<close> or
  \<open>SetMode\<close> no request whose result the program looks at is made twice, so every
  combination of failures of such a call is one choice of \<open>os_fail\<close>. The results of the
  two \<open>SystemParametersInfoW\<close> requests and of \<open>Close\<close> are discarded by the program, so the
  model does not ask for their verdict.
\<close>

record world =
  registry :: "key \<Rightarrow> (string \<Rightarrow> reg_value option) option"
  os_fail :: "os_call \<Rightarrow> error option"
  spi_buffer :: "16 word list"
  exe_path :: string
  range_seed :: "string list \<Rightarrow> nat"
  trace :: "os_call list"

definition emit :: "os_call \<Rightarrow> world \<Rightarrow> world" where
  "emit c w = w\<lparr>trace := trace w @ [c]\<rparr>"

text \<open>The requests made between two worlds of one run.\<close>

definition new_calls :: "world \<Rightarrow> world \<Rightarrow> os_call list" where
  "new_calls w w' = drop (length (trace w)) (trace w')"

subsection \<open>Package registry\<close>

definition OpenKey :: "world \<Rightarrow> hive \<Rightarrow> string \<Rightarrow> access \<Rightarrow> world \<times> (error + key)" where
  "OpenKey w h path a =
     (let c = RegOpenKey h path a; w' = emit c w in
      case os_fail w c of
        Some e \<Rightarrow> (w', Inl e)
      | None \<Rightarrow>
          (case registry w (h, path) of
             None \<Rightarrow> (w', Inl ErrNotExist)
           | Some vs \<Rightarrow> (w', Inr (h, path))))"

text \<open>\<open>CreateKey\<close> opens the key and creates it, without values, when it does not
  exist.\<close>

definition CreateKey :: "world \<Rightarrow> hive \<Rightarrow> string \<Rightarrow> access \<Rightarrow> world \<times> (error + key)" where
  "CreateKey w h path a =
     (let c = RegCreateKey h path a; w' = emit c w in
      case os_fail w c of
        Some e \<Rightarrow> (w', Inl e)
      | None \<Rightarrow>
          (w'\<lparr>registry := (registry w)((h, path) \<mapsto>
                (case registry w (h, path) of None \<Rightarrow> Map.empty | Some vs \<Rightarrow> vs))\<rparr>,
           Inr (h, path)))"

definition Close :: "world \<Rightarrow> key \<Rightarrow> world" where
  "Close w k = emit (RegCloseKey (fst k) (snd k)) w"

definition GetStringValue :: "world \<Rightarrow> key \<Rightarrow> string \<Rightarrow> world \<times> (error + string)" where
  "GetStringValue w k name =
     (let c = RegGetStringValue (fst k) (snd k) name; w' = emit c w in
      case os_fail w c of
        Some e \<Rightarrow> (w', Inl e)
      | None \<Rightarrow>
          (case registry w k of
             None \<Rightarrow> (w', Inl ErrNotExist)
           | Some vs \<Rightarrow>
               (case vs name of
                  None \<Rightarrow> (w', Inl ErrNotExist)
                | Some (SZ s) \<Rightarrow> (w', Inr s)
                | Some (EXPAND_SZ s) \<Rightarrow> (w', Inr s)
                | Some _ \<Rightarrow> (w', Inl ErrUnexpectedType))))"

definition GetIntegerValue :: "world \<Rightarrow> key \<Rightarrow> string \<Rightarrow> world \<times> (error + 64 word)" where
  "GetIntegerValue w k name =
     (let c = RegGetIntegerValue (fst k) (snd k) name; w' = emit c w in
      case os_fail w c of
        Some e \<Rightarrow> (w', Inl e)
      | None \<Rightarrow>
          (case registry w k of
             None \<Rightarrow> (w', Inl ErrNotExist)
           | Some vs \<Rightarrow>
               (case vs name of
                  None \<Rightarrow> (w', Inl ErrNotExist)
                | Some (DWORD v) \<Rightarrow> (w', Inr (ucast v))
                | Some (QWORD v) \<Rightarrow> (w', Inr v)
                | Some _ \<Rightarrow> (w', Inl ErrUnexpectedType))))"

text \<open>A write to a key that is gone fails with \<open>ERROR_KEY_DELETED\<close> (1018).\<close>

definition set_value :: "world \<Rightarrow> os_call \<Rightarrow> key \<Rightarrow> string \<Rightarrow> reg_value \<Rightarrow> world \<times> error option" where
  "set_value w c k name v =
     (let w' = emit c w in
      case os_fail w c of
        Some e \<Rightarrow> (w', Some e)
      | None \<Rightarrow>
          (case registry w k of
             None \<Rightarrow> (w', Some (Errno 1018))
           | Some vs \<Rightarrow> (w'\<lparr>registry := (registry w)(k \<mapsto> vs(name \<mapsto> v))\<rparr>, None)))"

text \<open>\<open>SetStringValue\<close> converts the value to UTF-16 first, which fails with \<open>EINVAL\<close>
  on a NUL byte before anything is asked of the operating system.\<close>

definition SetStringValue :: "world \<Rightarrow> key \<Rightarrow> string \<Rightarrow> string \<Rightarrow> world \<times> error option" where
  "SetStringValue w k name v =
     (if CHR 0x00 \<in> set v then (w, Some EINVAL)
      else set_value w (RegSetStringValue (fst k) (snd k) name v) k name (SZ v))"

definition SetDWordValue :: "world \<Rightarrow> key \<Rightarrow> string \<Rightarrow> 32 word \<Rightarrow> world \<times> error option" where
  "SetDWordValue w k name v =
     set_value w (RegSetDWordValue (fst k) (snd k) name v) k name (DWORD v)"

subsection \<open>Packages syscall, os, exec, unicode/utf16, strings\<close>

text \<open>\<open>syscall.UTF16PtrFromString\<close>: the pointer is represented by the string it points
  to.\<close>

definition UTF16PtrFromString :: "string \<Rightarrow> error + string" where
  "UTF16PtrFromString s = (if CHR 0x00 \<in> set s then Inl EINVAL else Inr s)"

text \<open>\<open>cmd.Run()\<close> of a command given by its name and arguments.\<close>

definition Run :: "world \<Rightarrow> string list \<Rightarrow> world \<times> error option" where
  "Run w args = (emit (ExecRun args) w, os_fail w (ExecRun args))"

definition Executable :: "world \<Rightarrow> world \<times> (error + string)" where
  "Executable w =
     (case os_fail w OsExecutable of
        Some e \<Rightarrow> (emit OsExecutable w, Inl e)
      | None \<Rightarrow> (emit OsExecutable w, Inr (exe_path w)))"

definition surr1 :: "16 word" where "surr1 = 0xd800"
definition surr2 :: "16 word" where "surr2 = 0xdc00"
definition surr3 :: "16 word" where "surr3 = 0xe000"
definition surrSelf :: nat where "surrSelf = 0x10000"
definition replacementChar :: nat where "replacementChar = 0xFFFD"

definition DecodeRune :: "16 word \<Rightarrow> 16 word \<Rightarrow> nat" where
  "DecodeRune r1 r2 =
     (push_bit 10 (unat r1 - unat surr1) OR (unat r2 - unat surr2)) + surrSelf"

text \<open>\<open>utf16.Decode\<close>: a unit outside the surrogate range is a rune, a high surrogate
  followed by a low one is one rune, any other surrogate is U+FFFD.\<close>

fun Decode :: "16 word list \<Rightarrow> nat list" where
  "Decode [] = []"
| "Decode [r] = [if r < surr1 \<or> surr3 \<le> r then unat r else replacementChar]"
| "Decode (r # r2 # rs) =
     (if r < surr1 \<or> surr3 \<le> r then unat r # Decode (r2 # rs)
      else if surr1 \<le> r \<and> r < surr2 \<and> surr2 \<le> r2 \<and> r2 < surr3
        then DecodeRune r r2 # Decode rs
      else replacementChar # Decode (r2 # rs))"

text \<open>The UTF-8 bytes of one rune, as the conversion \<open>string(runes)\<close> writes them.\<close>

definition encoderune :: "nat \<Rightarrow> string" where
  "encoderune r =
     (if r \<le> 0x7F then [char_of r]
      else if r \<le> 0x7FF then
        [char_of (0xC0 + r div 64), char_of (0x80 + r mod 64)]
      else if 0x10FFFF < r \<or> (0xD800 \<le> r \<and> r \<le> 0xDFFF) then
        [CHR 0xEF, CHR 0xBF, CHR 0xBD]
      else if r \<le> 0xFFFF then
        [char_of (0xE0 + r div 4096), char_of (0x80 + r div 64 mod 64),
         char_of (0x80 + r mod 64)]
      else
        [char_of (0xF0 + r div 262144), char_of (0x80 + r div 4096 mod 64),
         char_of (0x80 + r div 64 mod 64), char_of (0x80 + r mod 64)])"

definition string_of_runes :: "nat list \<Rightarrow> string" where
  "string_of_runes rs = concat (map encoderune rs)"

text \<open>\<open>strings.Trim(s, cutset)\<close> for a cutset of one ASCII byte: the byte is removed
  from the right end and then from the left end.\<close>

definition trimRightByte :: "string \<Rightarrow> char \<Rightarrow> string" where
  "trimRightByte s c = rev (dropWhile (\<lambda>x. x = c) (rev s))"

definition trimLeftByte :: "string \<Rightarrow> char \<Rightarrow> string" where
  "trimLeftByte s c = dropWhile (\<lambda>x. x = c) s"

definition Trim :: "string \<Rightarrow> char \<Rightarrow> string" where
  "Trim s c = trimLeftByte (trimRightByte s c) c"

text \<open>
  The order of a \<open>range\<close> over a Go map is not specified. The runtime's choice for the
  map with the keys \<open>ks\<close> is the number \<open>range_seed w ks\<close>, read as a permutation.
\<close>

function permute :: "nat \<Rightarrow> 'a list \<Rightarrow> 'a list" where
  "permute n xs =
     (if xs = [] then []
      else let i = n mod length xs
           in xs ! i # permute (n div length xs) (take i xs @ drop (Suc i) xs))"
  by pat_completeness auto
termination
proof (relation "measure (\<lambda>(n, xs). length xs)")
  show "wf (measure (\<lambda>(n :: nat, xs :: 'a list). length xs))"
    by simp
next
  fix n :: nat and xs :: "'a list" and i :: nat
  assume "xs \<noteq> []" and i: "i = n mod length xs"
  then have "i < length xs"
    by simp
  then show "((n div length xs, take i xs @ drop (Suc i) xs), (n, xs))
    \<in> measure (\<lambda>(n, xs). length xs)"
    by simp
qed

declare permute.simps [simp del]

definition go_range :: "world \<Rightarrow> (string \<times> 'v) list \<Rightarrow> (string \<times> 'v) list" where
  "go_range w m = permute (range_seed w (map fst m)) m"

section \<open>windows.go\<close>

definition spiGetDeskWallpaper :: nat where "spiGetDeskWallpaper = 0x0073"
definition spiSetDeskWallpaper :: nat where "spiSetDeskWallpaper = 0x0014"
definition uiParam :: nat where "uiParam = 0x0000"
definition spifUpdateINIFile :: nat where "spifUpdateINIFile = 0x01"
definition spifSendChange :: nat where "spifSendChange = 0x02"

definition bs :: char where "bs = CHR 0x5C"

definition personalization :: string where
  "personalization = ''SOFTWARE'' @ bs # ''Policies'' @ bs # ''Microsoft'' @ bs # ''Windows''
     @ bs # ''Personalization''"

definition personalizationCSP :: string where
  "personalizationCSP = ''SOFTWARE'' @ bs # ''Microsoft'' @ bs # ''Windows'' @ bs
     # ''CurrentVersion'' @ bs # ''PersonalizationCSP''"

definition desktop :: string where
  "desktop = ''Control Panel'' @ bs # ''Desktop''"

text \<open>Deferred calls run when the function returns or panics, not when the process
  exits. \<open>ks\<close> holds the keys whose \<open>Close\<close> was deferred, the latest first.\<close>

definition run_deferred :: "key list \<Rightarrow> world \<times> 'a outcome \<Rightarrow> world \<times> 'a outcome" where
  "run_deferred ks r =
     (case r of
        (w, Exit c) \<Rightarrow> (w, Exit c)
      | (w, x) \<Rightarrow> (foldl Close w ks, x))"

definition isAdmin :: "world \<Rightarrow> world \<times> bool" where
  "isAdmin w =
     (case Run w [''net'', ''session''] of (w', err) \<Rightarrow> (w', err = None))"

text \<open>\<open>log.Fatalf\<close> writes the message and calls \<open>os.Exit(1)\<close>.\<close>

definition runAsAdmin :: "world \<Rightarrow> world \<times> unit outcome" where
  "runAsAdmin w =
     (case Executable w of
        (w1, Inl err) \<Rightarrow> (w1, Exit 1)
      | (w1, Inr exe) \<Rightarrow>
          (case Run w1 [''powershell'', ''Start-Process'', exe, ''-Verb'', ''RunAs''] of
             (w2, Some err) \<Rightarrow> (w2, Exit 1)
           | (w2, None) \<Rightarrow> (w2, Exit 0)))"

text \<open>
  \<open>filename\<close> is an array of 256 zero units of which the request overwrites a prefix: what
  the operating system leaves in it is cut or padded to 256 units. The values that
  \<open>Call\<close> returns are discarded.
\<close>

definition Get :: "world \<Rightarrow> world \<times> (string \<times> error option) outcome" where
  "Get w =
     (let filename = take 256 (spi_buffer w @ replicate 256 0);
          w' = emit (SystemParametersInfoW spiGetDeskWallpaper 256 (PvBuffer 256) 0) w
      in (w', Return (Trim (string_of_runes (Decode filename)) (CHR 0x00), None)))"

datatype expected = ExpString string | ExpUint32 "32 word"

definition expectedValues :: "string \<Rightarrow> (string \<times> (string \<times> expected) list) list" where
  "expectedValues filename =
     [(personalization, [(''LockScreenImage'', ExpString filename)]),
      (personalizationCSP,
         [(''LockScreenImageStatus'', ExpUint32 1),
          (''LockScreenImagePath'', ExpString filename),
          (''LockScreenImageUrl'', ExpString filename)])]"

text \<open>The inner loop of \<open>checkRegistryValues\<close>, over the values expected under one key.\<close>

fun check_values :: "world \<Rightarrow> key \<Rightarrow> (string \<times> expected) list \<Rightarrow> world \<times> bool" where
  "check_values w k [] = (w, True)"
| "check_values w k ((valueName, ExpString expected) # rest) =
     (case GetStringValue w k valueName of
        (w', Inl err) \<Rightarrow> (w', False)
      | (w', Inr val) \<Rightarrow>
          if val \<noteq> expected then (w', False) else check_values w' k rest)"
| "check_values w k ((valueName, ExpUint32 expected) # rest) =
     (case GetIntegerValue w k valueName of
        (w', Inl err) \<Rightarrow> (w', False)
      | (w', Inr val) \<Rightarrow>
          if val \<noteq> ucast expected then (w', False) else check_values w' k rest)"

text \<open>The outer loop, over the keys; \<open>opened\<close> are the keys with a deferred \<open>Close\<close>.\<close>

fun check_keys ::
  "world \<Rightarrow> key list \<Rightarrow> (string \<times> (string \<times> expected) list) list \<Rightarrow> world \<times> bool" where
  "check_keys w opened [] = (foldl Close w opened, True)"
| "check_keys w opened ((keyPath, values) # rest) =
     (case OpenKey w LOCAL_MACHINE keyPath QUERY_VALUE of
        (w1, Inl err) \<Rightarrow> (foldl Close w1 opened, False)
      | (w1, Inr k) \<Rightarrow>
          (case check_values w1 k (go_range w1 values) of
             (w2, False) \<Rightarrow> (foldl Close w2 (k # opened), False)
           | (w2, True) \<Rightarrow> check_keys w2 (k # opened) rest))"

definition checkRegistryValues :: "world \<Rightarrow> string \<Rightarrow> world \<times> bool" where
  "checkRegistryValues w filename = check_keys w [] (go_range w (expectedValues filename))"

definition setLockscreen :: "world \<Rightarrow> string \<Rightarrow> world \<times> error option outcome" where
  "setLockscreen w filename =
     (case isAdmin w of
        (w0, False) \<Rightarrow>
          (case runAsAdmin w0 of
             (w1, Return u) \<Rightarrow> (w1, Return None)
           | (w1, Exit c) \<Rightarrow> (w1, Exit c)
           | (w1, Panic m) \<Rightarrow> (w1, Panic m))
      | (w0, True) \<Rightarrow>
          (case CreateKey w0 LOCAL_MACHINE personalization SET_VALUE of
             (w1, Inl err) \<Rightarrow> (w1, Return (Some err))
           | (w1, Inr k) \<Rightarrow> run_deferred [k]
               (case SetStringValue w1 k ''LockScreenImage'' filename of
                  (w2, Some err) \<Rightarrow> (w2, Return (Some err))
                | (w2, None) \<Rightarrow>
                    (case CreateKey w2 LOCAL_MACHINE personalizationCSP SET_VALUE of
                       (w3, Inl err) \<Rightarrow> (w3, Return (Some err))
                     | (w3, Inr cspKey) \<Rightarrow> run_deferred [cspKey]
                         (case SetDWordValue w3 cspKey ''LockScreenImageStatus'' 1 of
                            (w4, Some err) \<Rightarrow> (w4, Return (Some err))
                          | (w4, None) \<Rightarrow>
                              (case SetStringValue w4 cspKey ''LockScreenImagePath'' filename of
                                 (w5, Some err) \<Rightarrow> (w5, Return (Some err))
                               | (w5, None) \<Rightarrow>
                                   (case SetStringValue w5 cspKey ''LockScreenImageUrl'' filename of
                                      (w6, Some err) \<Rightarrow> (w6, Return (Some err))
                                    | (w6, None) \<Rightarrow> (w6, Return None))))))))"

text \<open>The last statements of \<open>SetFromFile\<close>: the request that sets the desktop wallpaper,
  whose result is not looked at, and \<open>return nil\<close>.\<close>

definition set_desk_wallpaper :: "world \<Rightarrow> string \<Rightarrow> world \<times> error option outcome" where
  "set_desk_wallpaper w filenameUTF16 =
     (emit (SystemParametersInfoW spiSetDeskWallpaper uiParam (PvString filenameUTF16)
              (spifUpdateINIFile OR spifSendChange)) w,
      Return None)"

definition SetFromFile :: "world \<Rightarrow> string \<Rightarrow> world \<times> error option outcome" where
  "SetFromFile w filename =
     (case UTF16PtrFromString filename of
        Inl err \<Rightarrow> (w, Return (Some err))
      | Inr filenameUTF16 \<Rightarrow>
          (case checkRegistryValues w filename of
             (w1, True) \<Rightarrow> set_desk_wallpaper w1 filenameUTF16
           | (w1, False) \<Rightarrow>
               (case setLockscreen w1 filename of
                  (w2, Return (Some err)) \<Rightarrow> (w2, Return (Some err))
                | (w2, Return None) \<Rightarrow> set_desk_wallpaper w2 filenameUTF16
                | (w2, Exit c) \<Rightarrow> (w2, Exit c)
                | (w2, Panic m) \<Rightarrow> (w2, Panic m))))"

definition tile_of :: "Mode \<Rightarrow> string" where
  "tile_of mode = (if mode = Tile then ''1'' else ''0'')"

text \<open>The \<open>switch\<close> of \<open>SetMode\<close>; \<open>None\<close> is its \<open>default\<close> case, the panic.\<close>

fun style_of :: "Mode \<Rightarrow> string option" where
  "style_of Center = Some ''0''"
| "style_of Tile = Some ''0''"
| "style_of Fit = Some ''6''"
| "style_of Span = Some ''22''"
| "style_of Stretch = Some ''2''"
| "style_of Crop = Some ''10''"
| "style_of (Unlisted n) = None"

definition SetMode :: "world \<Rightarrow> Mode \<Rightarrow> world \<times> error option outcome" where
  "SetMode w mode =
     (case CreateKey w CURRENT_USER desktop SET_VALUE of
        (w1, Inl err) \<Rightarrow> (w1, Return (Some err))
      | (w1, Inr k) \<Rightarrow> run_deferred [k]
          (case SetStringValue w1 k ''TileWallpaper'' (tile_of mode) of
             (w2, Some err) \<Rightarrow> (w2, Return (Some err))
           | (w2, None) \<Rightarrow>
               (case style_of mode of
                  None \<Rightarrow> (w2, Panic ''invalid wallpaper mode'')
                | Some style \<Rightarrow>
                    (case SetStringValue w2 k ''WallpaperStyle'' style of
                       (w3, Some err) \<Rightarrow> (w3, Return (Some err))
                     | (w3, None) \<Rightarrow>
                         (case Get w3 of
                            (w4, Return (path, Some err)) \<Rightarrow> (w4, Return (Some err))
                          | (w4, Return (path, None)) \<Rightarrow> SetFromFile w4 path
                          | (w4, Exit c) \<Rightarrow> (w4, Exit c)
                          | (w4, Panic m) \<Rightarrow> (w4, Panic m))))))"

section \<open>Vocabulary of the properties\<close>

text \<open>The requests that only read the registry or release a key.\<close>

fun is_query :: "os_call \<Rightarrow> bool" where
  "is_query (RegOpenKey h p a) = True"
| "is_query (RegCloseKey h p) = True"
| "is_query (RegGetStringValue h p n) = True"
| "is_query (RegGetIntegerValue h p n) = True"
| "is_query c = False"

text \<open>What one step of the iterations of \<open>checkRegistryValues\<close> accepts: the read is
  not refused and the value has the expected content, as a string of either string type
  or as an integer of either integer type.\<close>

fun value_ok :: "world \<Rightarrow> key \<Rightarrow> string \<times> expected \<Rightarrow> bool" where
  "value_ok w k (name, ExpString s) =
     (os_fail w (RegGetStringValue (fst k) (snd k) name) = None \<and>
      (case registry w k of
         None \<Rightarrow> False
       | Some vs \<Rightarrow> vs name = Some (SZ s) \<or> vs name = Some (EXPAND_SZ s)))"
| "value_ok w k (name, ExpUint32 n) =
     (os_fail w (RegGetIntegerValue (fst k) (snd k) name) = None \<and>
      (case registry w k of
         None \<Rightarrow> False
       | Some vs \<Rightarrow> vs name = Some (DWORD n) \<or> vs name = Some (QWORD (ucast n))))"

definition key_ok :: "world \<Rightarrow> string \<times> (string \<times> expected) list \<Rightarrow> bool" where
  "key_ok w kv =
     (os_fail w (RegOpenKey LOCAL_MACHINE (fst kv) QUERY_VALUE) = None \<and>
      registry w (LOCAL_MACHINE, fst kv) \<noteq> None \<and>
      list_all (value_ok w (LOCAL_MACHINE, fst kv)) (snd kv))"

text \<open>
  The lock-screen configuration of the spec, in terms of the registry: both policy keys
  can be opened, \<open>LockScreenImage\<close>, \<open>LockScreenImagePath\<close> and \<open>LockScreenImageUrl\<close> hold
  the path and \<open>LockScreenImageStatus\<close> holds 1.
\<close>

definition holds_string :: "world \<Rightarrow> string \<Rightarrow> string \<Rightarrow> string \<Rightarrow> bool" where
  "holds_string w path name s =
     (os_fail w (RegGetStringValue LOCAL_MACHINE path name) = None \<and>
      (case registry w (LOCAL_MACHINE, path) of
         None \<Rightarrow> False
       | Some vs \<Rightarrow> vs name = Some (SZ s) \<or> vs name = Some (EXPAND_SZ s)))"

definition holds_integer :: "world \<Rightarrow> string \<Rightarrow> string \<Rightarrow> 32 word \<Rightarrow> bool" where
  "holds_integer w path name n =
     (os_fail w (RegGetIntegerValue LOCAL_MACHINE path name) = None \<and>
      (case registry w (LOCAL_MACHINE, path) of
         None \<Rightarrow> False
       | Some vs \<Rightarrow> vs name = Some (DWORD n) \<or> vs name = Some (QWORD (ucast n))))"

definition lockscreen_configured :: "world \<Rightarrow> string \<Rightarrow> bool" where
  "lockscreen_configured w filename =
     (os_fail w (RegOpenKey LOCAL_MACHINE personalization QUERY_VALUE) = None \<and>
      os_fail w (RegOpenKey LOCAL_MACHINE personalizationCSP QUERY_VALUE) = None \<and>
      holds_string w personalization ''LockScreenImage'' filename \<and>
      holds_integer w personalizationCSP ''LockScreenImageStatus'' 1 \<and>
      holds_string w personalizationCSP ''LockScreenImagePath'' filename \<and>
      holds_string w personalizationCSP ''LockScreenImageUrl'' filename)"

text \<open>The requests that create a registry key or write a registry value.\<close>

fun is_registry_write :: "os_call \<Rightarrow> bool" where
  "is_registry_write (RegCreateKey h p a) = True"
| "is_registry_write (RegSetStringValue h p n v) = True"
| "is_registry_write (RegSetDWordValue h p n v) = True"
| "is_registry_write c = False"

text \<open>The requests of the elevation helper: running a command, asking for the path of the
  executable.\<close>

fun is_elevation :: "os_call \<Rightarrow> bool" where
  "is_elevation (ExecRun args) = True"
| "is_elevation OsExecutable = True"
| "is_elevation c = False"

text \<open>The request that sets the desktop wallpaper.\<close>

fun is_set_wallpaper :: "os_call \<Rightarrow> bool" where
  "is_set_wallpaper (SystemParametersInfoW a u p f) = (a = spiSetDeskWallpaper)"
| "is_set_wallpaper c = False"

text \<open>The registry creations and writes requested between two worlds, in order.\<close>

definition registry_writes :: "world \<Rightarrow> world \<Rightarrow> os_call list" where
  "registry_writes w w' = filter is_registry_write (new_calls w w')"

text \<open>The command of \<open>isAdmin\<close> and the command of \<open>runAsAdmin\<close>.\<close>

definition net_session :: os_call where
  "net_session = ExecRun [''net'', ''session'']"

definition start_elevated :: "string \<Rightarrow> os_call" where
  "start_elevated exe = ExecRun [''powershell'', ''Start-Process'', exe, ''-Verb'', ''RunAs'']"

text \<open>The six registry requests of \<open>setLockscreen\<close>, in the order of the source.\<close>

definition image_writes :: "string \<Rightarrow> os_call list" where
  "image_writes f =
     [RegCreateKey LOCAL_MACHINE personalization SET_VALUE,
      RegSetStringValue LOCAL_MACHINE personalization ''LockScreenImage'' f,
      RegCreateKey LOCAL_MACHINE personalizationCSP SET_VALUE,
      RegSetDWordValue LOCAL_MACHINE personalizationCSP ''LockScreenImageStatus'' 1,
      RegSetStringValue LOCAL_MACHINE personalizationCSP ''LockScreenImagePath'' f,
      RegSetStringValue LOCAL_MACHINE personalizationCSP ''LockScreenImageUrl'' f]"

text \<open>A registry that differs from the one of \<open>w\<close> at most under the two policy keys.\<close>

definition policy_keys_only :: "world \<Rightarrow> (key \<Rightarrow> (string \<Rightarrow> reg_value option) option) \<Rightarrow> bool" where
  "policy_keys_only w R \<longleftrightarrow>
     (\<forall>k. k \<noteq> (LOCAL_MACHINE, personalization) \<and> k \<noteq> (LOCAL_MACHINE, personalizationCSP)
        \<longrightarrow> R k = registry w k)"

text \<open>The deferred \<open>Close\<close> calls of \<open>setLockscreen\<close> when it returns after \<open>n\<close> accepted
  requests: \<open>cspKey\<close> first, then \<open>key\<close>.\<close>

definition deferred_closes :: "nat \<Rightarrow> os_call list" where
  "deferred_closes n =
     (if 3 \<le> n then [RegCloseKey LOCAL_MACHINE personalizationCSP] else [])
     @ (if 1 \<le> n then [RegCloseKey LOCAL_MACHINE personalization] else [])"

text \<open>The request of \<open>SetFromFile\<close> for the path \<open>f\<close>.\<close>

definition set_wallpaper :: "string \<Rightarrow> os_call" where
  "set_wallpaper f = SystemParametersInfoW spiSetDeskWallpaper uiParam (PvString f)
     (spifUpdateINIFile OR spifSendChange)"

text \<open>The requests of a process that is not elevated, and the exit status of
  \<open>runAsAdmin\<close>: 0 after the spawn, 1 after \<open>log.Fatalf\<close>.\<close>

definition relaunch_calls :: "world \<Rightarrow> os_call list" where
  "relaunch_calls w =
     [net_session, OsExecutable]
     @ (if os_fail w OsExecutable = None then [start_elevated (exe_path w)] else [])"

definition relaunch_status :: "world \<Rightarrow> int" where
  "relaunch_status w =
     (if os_fail w OsExecutable = None \<and> os_fail w (start_elevated (exe_path w)) = None
      then 0 else 1)"

text \<open>The requests of \<open>SetMode\<close> and of \<open>Get\<close>.\<close>

definition create_desktop :: os_call where
  "create_desktop = RegCreateKey CURRENT_USER desktop SET_VALUE"

definition write_tile :: "string \<Rightarrow> os_call" where
  "write_tile tile = RegSetStringValue CURRENT_USER desktop ''TileWallpaper'' tile"

definition write_style :: "string \<Rightarrow> os_call" where
  "write_style style = RegSetStringValue CURRENT_USER desktop ''WallpaperStyle'' style"

definition close_desktop :: os_call where
  "close_desktop = RegCloseKey CURRENT_USER desktop"

definition get_wallpaper :: os_call where
  "get_wallpaper = SystemParametersInfoW spiGetDeskWallpaper 256 (PvBuffer 256) 0"

text \<open>The values under the desktop key, none when the key does not exist.\<close>

definition desktop_values :: "world \<Rightarrow> string \<Rightarrow> reg_value option" where
  "desktop_values w =
     (case registry w (CURRENT_USER, desktop) of None \<Rightarrow> Map.empty | Some vs \<Rightarrow> vs)"

text \<open>The path that \<open>Get\<close> returns in the world \<open>w\<close>.\<close>

definition wallpaper_path :: "world \<Rightarrow> string" where
  "wallpaper_path w =
     Trim (string_of_runes (Decode (take 256 (spi_buffer w @ replicate 256 0)))) (CHR 0x00)"

text \<open>The registry after the accepted write of \<open>TileWallpaper\<close>, and the world after the
  three accepted registry requests of \<open>SetMode\<close>.\<close>

definition tile_written :: "world \<Rightarrow> Mode \<Rightarrow> key \<Rightarrow> (string \<Rightarrow> reg_value option) option" where
  "tile_written w mode =
     (registry w)((CURRENT_USER, desktop) \<mapsto>
        (desktop_values w)(''TileWallpaper'' \<mapsto> SZ (tile_of mode)))"

definition mode_written :: "world \<Rightarrow> Mode \<Rightarrow> string \<Rightarrow> world" where
  "mode_written w mode style =
     w\<lparr>registry := (registry w)((CURRENT_USER, desktop) \<mapsto>
          (desktop_values w)(''TileWallpaper'' \<mapsto> SZ (tile_of mode),
                             ''WallpaperStyle'' \<mapsto> SZ style)),
       trace := trace w @ [create_desktop, write_tile (tile_of mode), write_style style]\<rparr>"

text \<open>The table of the spec: Center and Tile map to 0, Stretch to 2, Crop to 10, Fit to 6,
  Span to 22.\<close>

definition style_table :: "(Mode \<times> string) list" where
  "style_table =
     [(Center, ''0''), (Tile, ''0''), (Stretch, ''2''), (Crop, ''10''), (Fit, ''6''),
      (Span, ''22'')]"

text \<open>The requests that write the value \<open>WallpaperStyle\<close>.\<close>

fun is_style_write :: "os_call \<Rightarrow> bool" where
  "is_style_write (RegSetStringValue h p n v) = (n = ''WallpaperStyle'')"
| "is_style_write c = False"

text \<open>
  A refused creation of a key or write of a value ends the registry work of a call and is
  its result: every creation or write the call requests before its last one was accepted,
  and when the last one is refused, the call returns the error of that request.
\<close>

definition refusal_returned :: "world \<Rightarrow> world \<times> error option outcome \<Rightarrow> bool" where
  "refusal_returned w r =
     (let ws = registry_writes w (fst r) in
        list_all (\<lambda>c. os_fail w c = None) (butlast ws) \<and>
        (ws = [] \<or>
         (case os_fail w (last ws) of None \<Rightarrow> True | Some e \<Rightarrow> snd r = Return (Some e))))"

section \<open>Example worlds\<close>

text \<open>A machine with an empty registry on which every request is accepted; the desktop
  wallpaper is \<open>C:/w.png\<close>.\<close>

definition quiet_machine :: world where
  "quiet_machine =
     \<lparr>registry = (\<lambda>k. None), os_fail = (\<lambda>c. None),
      spi_buffer = [0x43, 0x3A, 0x2F, 0x77, 0x2E, 0x70, 0x6E, 0x67],
      exe_path = ''C:/app.exe'', range_seed = (\<lambda>ks. 0), trace = []\<rparr>"

text \<open>The machine with the lock screen already configured for \<open>C:/w.png\<close>.\<close>

definition configured_machine :: world where
  "configured_machine = quiet_machine
     \<lparr>registry := (\<lambda>k.
        if k = (LOCAL_MACHINE, personalization)
          then Some [''LockScreenImage'' \<mapsto> SZ ''C:/w.png'']
        else if k = (LOCAL_MACHINE, personalizationCSP)
          then Some [''LockScreenImageStatus'' \<mapsto> DWORD 1,
                     ''LockScreenImagePath'' \<mapsto> SZ ''C:/w.png'',
                     ''LockScreenImageUrl'' \<mapsto> SZ ''C:/w.png'']
        else None)\<rparr>"

text \<open>A process without administrative rights: \<open>net session\<close> fails.\<close>

definition unprivileged_machine :: world where
  "unprivileged_machine = quiet_machine
     \<lparr>os_fail := (\<lambda>c. if c = net_session then Some (Errno 2) else None)\<rparr>"

text \<open>An elevated process that is refused the creation of the policy key.\<close>

definition locked_policy_machine :: world where
  "locked_policy_machine = quiet_machine
     \<lparr>os_fail := (\<lambda>c. if c = RegCreateKey LOCAL_MACHINE personalization SET_VALUE
                        then Some (Errno 5) else None)\<rparr>"

text \<open>A process that is refused the creation of the desktop key.\<close>

definition locked_desktop_machine :: world where
  "locked_desktop_machine = quiet_machine
     \<lparr>os_fail := (\<lambda>c. if c = RegCreateKey CURRENT_USER desktop SET_VALUE
                        then Some (Errno 5) else None)\<rparr>"

text \<open>A process whose desktop wallpaper cannot be read: \<open>SystemParametersInfoW\<close> is
  refused.\<close>

definition deaf_machine :: world where
  "deaf_machine = quiet_machine
     \<lparr>os_fail := (\<lambda>c. if c = get_wallpaper then Some (Errno 1) else None),
      spi_buffer := []\<rparr>"

section \<open>Decoding and trimming\<close>

lemma char_of_eq_NUL: "char_of (n::nat) = CHR 0x00 \<longleftrightarrow> n mod 256 = 0"
proof -
  have "char_of n = CHR 0x00 \<longleftrightarrow> (of_char (char_of n) :: nat) = of_char (CHR 0x00)"
    by (simp only: of_char_eq_iff)
  then show ?thesis by simp
qed

lemma NUL_eq_char_of: "CHR 0x00 = char_of (n::nat) \<longleftrightarrow> n mod 256 = 0"
  using char_of_eq_NUL [of n] by (auto simp del: char_of_eq_NUL)

lemma small_mod: "0 < n \<Longrightarrow> n < 256 \<Longrightarrow> (n::nat) mod 256 \<noteq> 0"
  by simp

lemma encoderune_NUL: "CHR 0x00 \<in> set (encoderune r) \<longleftrightarrow> r = 0"
proof -
  have a: "(128 + x mod 64) mod 256 \<noteq> 0" for x :: nat
    by (rule small_mod) (simp_all add: add.commute less_imp_le_nat trans_less_add2)
  have c: "r \<le> 2047 \<Longrightarrow> (192 + r div 64) mod 256 \<noteq> 0"
    by (rule small_mod) (simp_all add: div_less_iff_less_mult)
  have d: "r \<le> 65535 \<Longrightarrow> (224 + r div 4096) mod 256 \<noteq> 0"
    by (rule small_mod) (simp_all add: div_less_iff_less_mult)
  have e: "r \<le> 1114111 \<Longrightarrow> (240 + r div 262144) mod 256 \<noteq> 0"
    by (rule small_mod) (simp_all add: div_less_iff_less_mult)
  show ?thesis
    using a c d e by (auto simp: encoderune_def char_of_eq_NUL NUL_eq_char_of simp del: One_nat_def)
qed

lemma string_of_runes_NUL: "CHR 0x00 \<in> set (string_of_runes rs) \<longleftrightarrow> 0 \<in> set rs"
  by (induction rs) (auto simp: string_of_runes_def encoderune_NUL)

lemma Decode_no_zero: "0 \<notin> set xs \<Longrightarrow> 0 \<notin> set (Decode xs)"
  by (induction xs rule: Decode.induct)
    (auto simp: DecodeRune_def surrSelf_def replacementChar_def unat_gt_0)

lemma string_of_runes_zeros: "string_of_runes (replicate n 0) = replicate n (CHR 0x00)"
  by (induction n) (auto simp: string_of_runes_def encoderune_def char_of_eq_NUL)

lemma string_of_runes_append: "string_of_runes (xs @ ys) = string_of_runes xs @ string_of_runes ys"
  by (simp add: string_of_runes_def)

lemma dropWhile_replicate_append: "dropWhile (\<lambda>x. x = c) (replicate n c @ xs) = dropWhile (\<lambda>x. x = c) xs"
  by (induction n) auto

lemma Trim_padding:
  assumes "c \<notin> set s"
  shows "Trim (s @ replicate n c) c = s"
proof -
  have id: "c \<notin> set xs \<Longrightarrow> dropWhile (\<lambda>x. x = c) xs = xs" for xs
    by (cases xs) auto
  have "dropWhile (\<lambda>x. x = c) (rev s) = rev s"
    using assms by (simp add: id)
  then have "trimRightByte (s @ replicate n c) c = s"
    by (simp add: trimRightByte_def dropWhile_replicate_append)
  moreover have "dropWhile (\<lambda>x. x = c) s = s"
    using assms by (simp add: id)
  ultimately show ?thesis
    by (simp add: Trim_def trimLeftByte_def)
qed

lemma encoderune_length: "length (encoderune r) \<le> 4"
  by (simp add: encoderune_def)

lemma encoderune_length3: "r < 65536 \<Longrightarrow> length (encoderune r) \<le> 3"
  by (simp add: encoderune_def)

lemma unat16_bound: "unat (r :: 16 word) < 65536"
  using unsigned_less [of r, where 'a = nat] by simp

lemma length_string_of_Decode: "length (string_of_runes (Decode xs)) \<le> 3 * length xs"
proof (induction xs rule: Decode.induct)
  case 1
  then show ?case by (simp add: string_of_runes_def)
next
  case (2 r)
  then show ?case
    using encoderune_length3 [OF unat16_bound [of r]] encoderune_length3 [of replacementChar]
    by (simp add: string_of_runes_def replacementChar_def)
next
  case (3 r r2 rs)
  then show ?case
    using encoderune_length3 [OF unat16_bound [of r]] encoderune_length3 [of replacementChar]
      encoderune_length [of "DecodeRune r r2"]
    by (auto simp: string_of_runes_def replacementChar_def)
qed

lemma Decode_append_zero: "Decode (p @ 0 # zs) = Decode p @ Decode (0 # zs)"
  by (induction p rule: Decode.induct) (auto simp: surr1_def surr2_def surr3_def)

lemma Decode_zeros: "Decode (replicate n 0) = replicate n 0"
proof (induction n)
  case 0 show ?case by simp
next
  case (Suc n)
  then show ?case by (cases n) (auto simp: surr1_def)
qed

lemma Trim_no_trailing: "\<not> (\<exists>t. Trim s c = t @ [c])"
proof
  let ?P = "\<lambda>x. x = c"
  let ?t = "rev (dropWhile ?P (rev s))"
  assume "\<exists>t. Trim s c = t @ [c]"
  then obtain t where t: "dropWhile ?P ?t = t @ [c]"
    by (auto simp: Trim_def trimLeftByte_def trimRightByte_def)
  have keep: "dropWhile ?P xs \<noteq> [] \<Longrightarrow> last (dropWhile ?P xs) = last xs" for xs
    by (induction xs) auto
  from t have "last ?t = c"
    using keep [of ?t] by simp
  moreover have ne: "dropWhile ?P (rev s) \<noteq> []"
  proof
    assume "dropWhile ?P (rev s) = []"
    then have "dropWhile ?P ?t = []"
      by (simp only: rev.simps dropWhile.simps)
    with t show False by simp
  qed
  then have "hd (dropWhile ?P (rev s)) \<noteq> c"
    using hd_dropWhile [of ?P "rev s"] by simp
  ultimately show False
    using ne by (simp add: last_rev)
qed

lemma length_Trim: "length (Trim s c) \<le> length s"
proof -
  have "length (Trim s c) \<le> length (trimRightByte s c)"
    by (simp add: Trim_def trimLeftByte_def length_dropWhile_le)
  also have "\<dots> \<le> length s"
    using length_dropWhile_le [of "\<lambda>x. x = c" "rev s"] by (simp add: trimRightByte_def)
  finally show ?thesis .
qed

lemma padded_buffer_path:
  assumes short: "length b \<le> 256" and nz: "0 \<notin> set b"
  shows "Trim (string_of_runes (Decode (take 256 (b @ replicate 256 0)))) (CHR 0x00)
    = string_of_runes (Decode b)"
proof -
  let ?buf = "take 256 (b @ replicate 256 0)"
  let ?n = "256 - length b"
  have buf: "?buf = b @ replicate ?n 0"
    using short by simp
  have "Decode ?buf = Decode b @ replicate ?n 0"
  proof (cases ?n)
    case 0
    then show ?thesis using buf by simp
  next
    case (Suc m)
    then have "Decode ?buf = Decode b @ Decode (replicate (Suc m) 0)"
      using buf Decode_append_zero [of b "replicate m 0"] by simp
    then show ?thesis
      using Suc by (simp only: Decode_zeros)
  qed
  then have "string_of_runes (Decode ?buf)
      = string_of_runes (Decode b) @ replicate ?n (CHR 0x00)"
    by (simp add: string_of_runes_append string_of_runes_zeros)
  moreover have "CHR 0x00 \<notin> set (string_of_runes (Decode b))"
    using nz by (simp add: string_of_runes_NUL Decode_no_zero)
  ultimately show ?thesis
    by (simp add: Trim_padding)
qed

section \<open>Get\<close>

text \<open>
  C9. \<open>Get\<close> returns the decoded content of the buffer together with a nil error in
  every world, whatever \<open>SystemParametersInfoW\<close> answers and whatever it leaves in the
  buffer: no field of the world, the verdict \<open>os_fail\<close> included, is constrained.
\<close>

theorem Get_error_always_nil:
  "snd (Get w) =
     Return (Trim (string_of_runes (Decode (take 256 (spi_buffer w @ replicate 256 0))))
               (CHR 0x00), None)"
  by (simp add: Get_def Let_def)

text \<open>
  C8. \<open>Get\<close> makes one request, \<open>SPI_GETDESKWALLPAPER\<close> with a buffer of 256 UTF-16
  code units, and returns the decoded buffer with the NUL bytes trimmed: the result does
  not end with a NUL, it is decoded from exactly 256 units (so at most 768 bytes, a longer
  path is cut off at the buffer), and when the buffer holds a path without NUL followed
  by NUL padding, the result is that path, decoded.
\<close>

theorem Get_fixed_buffer:
  "new_calls w (fst (Get w)) = [SystemParametersInfoW spiGetDeskWallpaper 256 (PvBuffer 256) 0]
   \<and> length (take 256 (spi_buffer w @ replicate 256 0)) = 256
   \<and> (\<exists>path. snd (Get w) = Return (path, None)
        \<and> path = Trim (string_of_runes (Decode (take 256 (spi_buffer w @ replicate 256 0))))
                   (CHR 0x00)
        \<and> \<not> (\<exists>t. path = t @ [CHR 0x00])
        \<and> length path \<le> 3 * 256
        \<and> (length (spi_buffer w) \<le> 256 \<and> 0 \<notin> set (spi_buffer w)
             \<longrightarrow> path = string_of_runes (Decode (spi_buffer w))))"
proof -
  let ?buf = "take 256 (spi_buffer w @ replicate 256 0)"
  let ?path = "Trim (string_of_runes (Decode ?buf)) (CHR 0x00)"
  have calls: "new_calls w (fst (Get w))
      = [SystemParametersInfoW spiGetDeskWallpaper 256 (PvBuffer 256) 0]"
    by (simp add: Get_def Let_def new_calls_def emit_def)
  have len: "length ?buf = 256"
    by simp
  have ret: "snd (Get w) = Return (?path, None)"
    by (simp add: Get_def Let_def)
  have bound: "length ?path \<le> 3 * 256"
  proof -
    have "length ?path \<le> length (string_of_runes (Decode ?buf))"
      by (rule length_Trim)
    also have "\<dots> \<le> 3 * length ?buf"
      by (rule length_string_of_Decode)
    finally show ?thesis
      using len by simp
  qed
  have exact: "?path = string_of_runes (Decode (spi_buffer w))"
    if "length (spi_buffer w) \<le> 256" and "0 \<notin> set (spi_buffer w)"
    using that by (rule padded_buffer_path)
  show ?thesis
    using calls len ret bound exact Trim_no_trailing by blast
qed

theorem Get_fixed_buffer_witness:
  "length (spi_buffer quiet_machine) \<le> 256 \<and> 0 \<notin> set (spi_buffer quiet_machine)
   \<and> snd (Get quiet_machine) = Return (''C:/w.png'', None)"
proof -
  have h: "length (spi_buffer quiet_machine) \<le> 256 \<and> 0 \<notin> set (spi_buffer quiet_machine)"
    by (simp add: quiet_machine_def)
  have "string_of_runes (Decode (spi_buffer quiet_machine)) = ''C:/w.png''"
    by code_simp
  then show ?thesis
    using h Get_fixed_buffer [of quiet_machine] by auto
qed

section \<open>checkRegistryValues\<close>

lemma ucast_32_64_inj: "(ucast (a :: 32 word) :: 64 word) = ucast b \<longleftrightarrow> a = b"
proof
  assume h: "(ucast a :: 64 word) = ucast b"
  show "a = b"
  proof (rule bit_word_eqI)
    fix n
    assume n: "n < LENGTH(32)"
    from h have "bit (ucast a :: 64 word) n = bit (ucast b :: 64 word) n"
      by simp
    then show "bit a n = bit b n"
      using n by (simp add: bit_ucast_iff)
  qed
qed simp

lemma value_ok_trace [simp]: "value_ok (w\<lparr>trace := t\<rparr>) k = value_ok w k"
proof
  fix v
  show "value_ok (w\<lparr>trace := t\<rparr>) k v = value_ok w k v"
    by (cases "(w, k, v)" rule: value_ok.cases) simp_all
qed

lemma key_ok_trace [simp]: "key_ok (w\<lparr>trace := t\<rparr>) = key_ok w"
  by (rule ext) (simp add: key_ok_def)

lemma GetStringValue_fst:
  "fst (GetStringValue w k n) = emit (RegGetStringValue (fst k) (snd k) n) w"
  by (simp add: GetStringValue_def Let_def split: option.splits reg_value.splits)

lemma GetStringValue_snd:
  "snd (GetStringValue w k n) = Inr s \<longleftrightarrow> value_ok w k (n, ExpString s)"
  by (auto simp: GetStringValue_def Let_def split: option.splits reg_value.splits)

lemma GetIntegerValue_fst:
  "fst (GetIntegerValue w k n) = emit (RegGetIntegerValue (fst k) (snd k) n) w"
  by (simp add: GetIntegerValue_def Let_def split: option.splits reg_value.splits)

lemma GetIntegerValue_snd:
  "snd (GetIntegerValue w k n) = Inr (ucast x) \<longleftrightarrow> value_ok w k (n, ExpUint32 x)"
  by (auto simp: GetIntegerValue_def Let_def ucast_32_64_inj
      split: option.splits reg_value.splits)

declare value_ok.simps [simp del]

lemma check_values_result:
  "\<exists>cs. check_values w k vs = (w\<lparr>trace := trace w @ cs\<rparr>, list_all (value_ok w k) vs)
        \<and> list_all is_query cs"
proof (induction w k vs rule: check_values.induct)
  case (1 w k)
  have "check_values w k [] = (w\<lparr>trace := trace w @ []\<rparr>, list_all (value_ok w k) [])"
    by simp
  moreover have "list_all is_query []"
    by simp
  ultimately show ?case
    by blast
next
  case (2 w k valueName expected rest)
  let ?c = "RegGetStringValue (fst k) (snd k) valueName"
  obtain r where g: "GetStringValue w k valueName = (emit ?c w, r)"
    using GetStringValue_fst [of w k valueName] by (cases "GetStringValue w k valueName") simp
  have r: "r = Inr expected \<longleftrightarrow> value_ok w k (valueName, ExpString expected)"
    using g GetStringValue_snd [of w k valueName expected] by simp
  show ?case
  proof (cases "r = Inr expected")
    case True
    with 2 g obtain cs where
      cs: "check_values (emit ?c w) k rest
         = ((emit ?c w)\<lparr>trace := trace (emit ?c w) @ cs\<rparr>, list_all (value_ok (emit ?c w) k) rest)"
      and q: "list_all is_query cs"
      by force
    have "check_values w k ((valueName, ExpString expected) # rest)
        = (w\<lparr>trace := trace w @ (?c # cs)\<rparr>,
           list_all (value_ok w k) ((valueName, ExpString expected) # rest))"
      using g True r cs by (simp add: emit_def)
    moreover have "list_all is_query (?c # cs)"
      using q by simp
    ultimately show ?thesis
      by blast
  next
    case False
    then have "check_values w k ((valueName, ExpString expected) # rest) = (emit ?c w, False)"
      using g by (cases r) auto
    then have "check_values w k ((valueName, ExpString expected) # rest)
        = (w\<lparr>trace := trace w @ [?c]\<rparr>,
           list_all (value_ok w k) ((valueName, ExpString expected) # rest))"
      using False r by (simp add: emit_def)
    moreover have "list_all is_query [?c]"
      by simp
    ultimately show ?thesis
      by blast
  qed
next
  case (3 w k valueName expected rest)
  let ?c = "RegGetIntegerValue (fst k) (snd k) valueName"
  obtain r where g: "GetIntegerValue w k valueName = (emit ?c w, r)"
    using GetIntegerValue_fst [of w k valueName] by (cases "GetIntegerValue w k valueName") simp
  have r: "r = Inr (ucast expected) \<longleftrightarrow> value_ok w k (valueName, ExpUint32 expected)"
    using g GetIntegerValue_snd [of w k valueName expected] by simp
  show ?case
  proof (cases "r = Inr (ucast expected)")
    case True
    with 3 g obtain cs where
      cs: "check_values (emit ?c w) k rest
         = ((emit ?c w)\<lparr>trace := trace (emit ?c w) @ cs\<rparr>, list_all (value_ok (emit ?c w) k) rest)"
      and q: "list_all is_query cs"
      by force
    have "check_values w k ((valueName, ExpUint32 expected) # rest)
        = (w\<lparr>trace := trace w @ (?c # cs)\<rparr>,
           list_all (value_ok w k) ((valueName, ExpUint32 expected) # rest))"
      using g True r cs by (simp add: emit_def)
    moreover have "list_all is_query (?c # cs)"
      using q by simp
    ultimately show ?thesis
      by blast
  next
    case False
    then have "check_values w k ((valueName, ExpUint32 expected) # rest) = (emit ?c w, False)"
      using g by (cases r) auto
    then have "check_values w k ((valueName, ExpUint32 expected) # rest)
        = (w\<lparr>trace := trace w @ [?c]\<rparr>,
           list_all (value_ok w k) ((valueName, ExpUint32 expected) # rest))"
      using False r by (simp add: emit_def)
    moreover have "list_all is_query [?c]"
      by simp
    ultimately show ?thesis
      by blast
  qed
qed


lemma set_permute: "set (permute n xs) = set xs"
proof (induction n xs rule: permute.induct)
  case (1 n xs)
  show ?case
  proof (cases "xs = []")
    case True
    then show ?thesis by (simp add: permute.simps)
  next
    case False
    let ?i = "n mod length xs"
    have i: "?i < length xs"
      using False by simp
    have "set (permute n xs) = insert (xs ! ?i) (set (take ?i xs @ drop (Suc ?i) xs))"
      using False 1 by (subst permute.simps) (simp add: Let_def)
    also have "\<dots> = set (take ?i xs @ xs ! ?i # drop (Suc ?i) xs)"
      by simp
    also have "\<dots> = set xs"
      using id_take_nth_drop [OF i] by simp
    finally show ?thesis .
  qed
qed

lemma list_all_go_range: "list_all P (go_range w m) = list_all P m"
  by (simp add: go_range_def list_all_iff set_permute)

lemma foldl_Close:
  "foldl Close w ks = w\<lparr>trace := trace w @ map (\<lambda>k. RegCloseKey (fst k) (snd k)) ks\<rparr>"
  by (induction ks arbitrary: w) (simp_all add: Close_def emit_def)

lemma OpenKey_fst: "fst (OpenKey w h p a) = emit (RegOpenKey h p a) w"
  by (simp add: OpenKey_def Let_def split: option.splits)

lemma OpenKey_snd:
  "snd (OpenKey w h p a) =
     (case os_fail w (RegOpenKey h p a) of
        Some e \<Rightarrow> Inl e
      | None \<Rightarrow> if registry w (h, p) = None then Inl ErrNotExist else Inr (h, p))"
  by (simp add: OpenKey_def Let_def split: option.splits)

lemma list_all_query_closes: "list_all is_query (map (\<lambda>k. RegCloseKey (fst k) (snd k)) ks)"
  by (induction ks) simp_all

lemma check_keys_result:
  "\<exists>cs. check_keys w opened kvs = (w\<lparr>trace := trace w @ cs\<rparr>, list_all (key_ok w) kvs)
        \<and> list_all is_query cs"
proof (induction w opened kvs rule: check_keys.induct)
  case (1 w opened)
  let ?cs = "map (\<lambda>k. RegCloseKey (fst k) (snd k)) opened"
  have "check_keys w opened [] = (w\<lparr>trace := trace w @ ?cs\<rparr>, list_all (key_ok w) [])"
    by (simp add: foldl_Close)
  then show ?case
    using list_all_query_closes by blast
next
  case (2 w opened keyPath vals rest)
  let ?c = "RegOpenKey LOCAL_MACHINE keyPath QUERY_VALUE"
  let ?k = "(LOCAL_MACHINE, keyPath)"
  let ?w1 = "emit ?c w"
  let ?closes = "\<lambda>ks. map (\<lambda>k. RegCloseKey (fst k) (snd k)) ks"
  obtain r where o: "OpenKey w LOCAL_MACHINE keyPath QUERY_VALUE = (?w1, r)"
    using OpenKey_fst [of w LOCAL_MACHINE keyPath QUERY_VALUE]
    by (cases "OpenKey w LOCAL_MACHINE keyPath QUERY_VALUE") simp
  have r: "r = snd (OpenKey w LOCAL_MACHINE keyPath QUERY_VALUE)"
    using o by simp
  show ?case
  proof (cases r)
    case (Inl err)
    then have "\<not> key_ok w (keyPath, vals)"
      using r by (auto simp: OpenKey_snd key_ok_def split: option.splits if_splits)
    then have "check_keys w opened ((keyPath, vals) # rest)
        = (w\<lparr>trace := trace w @ (?c # ?closes opened)\<rparr>,
           list_all (key_ok w) ((keyPath, vals) # rest))"
      using o Inl by (simp add: foldl_Close emit_def)
    moreover have "list_all is_query (?c # ?closes opened)"
      using list_all_query_closes by simp
    ultimately show ?thesis
      by blast
  next
    case (Inr k)
    then have k: "k = ?k" and opened: "os_fail w ?c = None" "registry w ?k \<noteq> None"
      using r by (auto simp: OpenKey_snd split: option.splits if_splits)
    obtain vcs where
      v: "check_values ?w1 ?k (go_range ?w1 vals)
          = (?w1\<lparr>trace := trace ?w1 @ vcs\<rparr>, list_all (value_ok ?w1 ?k) (go_range ?w1 vals))"
      and vq: "list_all is_query vcs"
      using check_values_result by blast
    let ?w2 = "?w1\<lparr>trace := trace ?w1 @ vcs\<rparr>"
    have veq: "list_all (value_ok ?w1 ?k) (go_range ?w1 vals) = list_all (value_ok w ?k) vals"
      by (simp add: list_all_go_range emit_def)
    show ?thesis
    proof (cases "list_all (value_ok w ?k) vals")
      case False
      let ?cs = "?c # vcs @ ?closes (?k # opened)"
      have "\<not> key_ok w (keyPath, vals)"
        using False by (simp add: key_ok_def)
      then have "check_keys w opened ((keyPath, vals) # rest)
          = (w\<lparr>trace := trace w @ ?cs\<rparr>, list_all (key_ok w) ((keyPath, vals) # rest))"
        using o Inr k v veq False by (simp add: foldl_Close emit_def Close_def)
      moreover have "list_all is_query ?cs"
        using vq list_all_query_closes [of opened] by simp
      ultimately show ?thesis
        by blast
    next
      case True
      have ok: "key_ok w (keyPath, vals)"
        using True opened by (simp add: key_ok_def)
      have v': "check_values ?w1 k (go_range ?w1 vals) = (?w2, True)"
        using v veq True k by simp
      obtain cs where
        c: "check_keys ?w2 (k # opened) rest
            = (?w2\<lparr>trace := trace ?w2 @ cs\<rparr>, list_all (key_ok ?w2) rest)"
        and q: "list_all is_query cs"
        using 2 [OF o [symmetric] Inr v' [symmetric] refl] by blast
      have "check_keys w opened ((keyPath, vals) # rest) = check_keys ?w2 (k # opened) rest"
        using o Inr v' by simp
      also have "\<dots> = (w\<lparr>trace := trace w @ (?c # vcs @ cs)\<rparr>,
           list_all (key_ok w) ((keyPath, vals) # rest))"
        using c ok by (simp add: emit_def)
      finally have "check_keys w opened ((keyPath, vals) # rest)
          = (w\<lparr>trace := trace w @ (?c # vcs @ cs)\<rparr>,
             list_all (key_ok w) ((keyPath, vals) # rest))" .
      moreover have "list_all is_query (?c # vcs @ cs)"
        using vq q by simp
      ultimately show ?thesis
        by blast
    qed
  qed
qed

lemma checkRegistryValues_result:
  "\<exists>cs. checkRegistryValues w filename
          = (w\<lparr>trace := trace w @ cs\<rparr>, lockscreen_configured w filename)
        \<and> list_all is_query cs"
proof -
  have "list_all (key_ok w) (go_range w (expectedValues filename))
      = list_all (key_ok w) (expectedValues filename)"
    by (rule list_all_go_range)
  also have "\<dots> = lockscreen_configured w filename"
    by (auto simp: expectedValues_def key_ok_def value_ok.simps lockscreen_configured_def
        holds_string_def holds_integer_def split: option.splits)
  finally show ?thesis
    using check_keys_result [of w "[]" "go_range w (expectedValues filename)"]
    by (simp add: checkRegistryValues_def)
qed

section \<open>The paths through setLockscreen and SetFromFile\<close>

lemma new_calls_simp [simp]:
  "new_calls w (w\<lparr>trace := trace w @ cs\<rparr>) = cs"
  "new_calls w (w\<lparr>registry := R, trace := trace w @ cs\<rparr>) = cs"
  "new_calls w (w\<lparr>trace := trace w @ cs, registry := R\<rparr>) = cs"
  "new_calls w w = []"
  by (simp_all add: new_calls_def)

lemmas prims = CreateKey_def SetStringValue_def SetDWordValue_def set_value_def
  run_deferred_def Close_def emit_def Let_def

lemma key_paths_distinct [simp]:
  "personalization \<noteq> personalizationCSP" "personalizationCSP \<noteq> personalization"
  by (simp_all add: personalization_def personalizationCSP_def)

lemmas setLockscreen_unfold = setLockscreen_def isAdmin_def Run_def prims net_session_def
  image_writes_def deferred_closes_def policy_keys_only_def

lemma setLockscreen_admin_cases [case_names refused invalid completed]:
  assumes admin: "os_fail w net_session = None"
    and refused: "\<And>R n e. \<lbrakk>policy_keys_only w R; n < 6;
        list_all (\<lambda>c. os_fail w c = None) (take n (image_writes f));
        os_fail w (image_writes f ! n) = Some e; CHR 0x00 \<in> set f \<longrightarrow> n = 0\<rbrakk>
      \<Longrightarrow> P (w\<lparr>registry := R, trace := trace w @ net_session # take (Suc n) (image_writes f)
                  @ deferred_closes n\<rparr>, Return (Some e))"
    and invalid: "\<And>R. \<lbrakk>policy_keys_only w R; CHR 0x00 \<in> set f;
        os_fail w (image_writes f ! 0) = None\<rbrakk>
      \<Longrightarrow> P (w\<lparr>registry := R, trace := trace w @ net_session # take 1 (image_writes f)
                  @ deferred_closes 1\<rparr>, Return (Some EINVAL))"
    and completed: "\<And>R. \<lbrakk>policy_keys_only w R; CHR 0x00 \<notin> set f;
        list_all (\<lambda>c. os_fail w c = None) (image_writes f)\<rbrakk>
      \<Longrightarrow> P (w\<lparr>registry := R, trace := trace w @ net_session # image_writes f
                  @ deferred_closes 6\<rparr>, Return None)"
  shows "P (setLockscreen w f)"
proof -
  let ?R = "registry (fst (setLockscreen w f))"
  let ?c = "\<lambda>n. image_writes f ! n"
  note admin' = admin [unfolded net_session_def]
  have c_simps: "?c 0 = RegCreateKey LOCAL_MACHINE personalization SET_VALUE"
    "?c 1 = RegSetStringValue LOCAL_MACHINE personalization ''LockScreenImage'' f"
    "?c 2 = RegCreateKey LOCAL_MACHINE personalizationCSP SET_VALUE"
    "?c 3 = RegSetDWordValue LOCAL_MACHINE personalizationCSP ''LockScreenImageStatus'' 1"
    "?c 4 = RegSetStringValue LOCAL_MACHINE personalizationCSP ''LockScreenImagePath'' f"
    "?c 5 = RegSetStringValue LOCAL_MACHINE personalizationCSP ''LockScreenImageUrl'' f"
    by (simp_all add: image_writes_def)
  show ?thesis
  proof (cases "os_fail w (?c 0)")
    case (Some e)
    have "setLockscreen w f = (w\<lparr>registry := ?R, trace := trace w @ net_session
        # take (Suc 0) (image_writes f) @ deferred_closes 0\<rparr>, Return (Some e))"
      using admin' Some [unfolded c_simps] by (simp add: setLockscreen_unfold)
    moreover have "policy_keys_only w ?R"
      using admin' Some [unfolded c_simps] by (simp add: setLockscreen_unfold)
    moreover have "list_all (\<lambda>c. os_fail w c = None) (take 0 (image_writes f))"
      using admin' by (simp add: image_writes_def)
    ultimately show ?thesis
      using refused [of ?R 0 e] Some admin' by simp
  next
    case c0: None
    note f0 = c0 [unfolded c_simps]
    show ?thesis
    proof (cases "CHR 0x00 \<in> set f")
      case True
      have "setLockscreen w f = (w\<lparr>registry := ?R, trace := trace w @ net_session
          # take 1 (image_writes f) @ deferred_closes 1\<rparr>, Return (Some EINVAL))"
        using admin' f0 True by (simp add: setLockscreen_unfold)
      moreover have "policy_keys_only w ?R"
        using admin' f0 True by (simp add: setLockscreen_unfold)
      ultimately show ?thesis
        using invalid [of ?R] True c0 by simp
    next
      case nonul: False
      show ?thesis
      proof (cases "os_fail w (?c 1)")
        case (Some e)
        have "setLockscreen w f = (w\<lparr>registry := ?R, trace := trace w @ net_session
            # take (Suc 1) (image_writes f) @ deferred_closes 1\<rparr>, Return (Some e))"
          using admin' nonul f0 Some [unfolded c_simps] by (simp add: setLockscreen_unfold)
        moreover have "policy_keys_only w ?R"
          using admin' nonul f0 Some [unfolded c_simps] by (simp add: setLockscreen_unfold)
        moreover have "list_all (\<lambda>c. os_fail w c = None) (take 1 (image_writes f))"
          using admin' nonul f0 by (simp add: image_writes_def)
        ultimately show ?thesis
          using refused [of ?R 1 e] Some admin' nonul f0 by simp
      next
        case c1: None
        note f1 = c1 [unfolded c_simps]
        show ?thesis
        proof (cases "os_fail w (?c 2)")
          case (Some e)
          have "setLockscreen w f = (w\<lparr>registry := ?R, trace := trace w @ net_session
              # take (Suc 2) (image_writes f) @ deferred_closes 2\<rparr>, Return (Some e))"
            using admin' nonul f0 f1 Some [unfolded c_simps] by (simp add: setLockscreen_unfold)
          moreover have "policy_keys_only w ?R"
            using admin' nonul f0 f1 Some [unfolded c_simps] by (simp add: setLockscreen_unfold)
          moreover have "list_all (\<lambda>c. os_fail w c = None) (take 2 (image_writes f))"
            using admin' nonul f0 f1 by (simp add: image_writes_def)
          ultimately show ?thesis
            using refused [of ?R 2 e] Some admin' nonul f0 f1 by simp
        next
          case c2: None
          note f2 = c2 [unfolded c_simps]
          show ?thesis
          proof (cases "os_fail w (?c 3)")
            case (Some e)
            have "setLockscreen w f = (w\<lparr>registry := ?R, trace := trace w @ net_session
                # take (Suc 3) (image_writes f) @ deferred_closes 3\<rparr>, Return (Some e))"
              using admin' nonul f0 f1 f2 Some [unfolded c_simps] by (simp add: setLockscreen_unfold)
            moreover have "policy_keys_only w ?R"
              using admin' nonul f0 f1 f2 Some [unfolded c_simps] by (simp add: setLockscreen_unfold)
            moreover have "list_all (\<lambda>c. os_fail w c = None) (take 3 (image_writes f))"
              using admin' nonul f0 f1 f2 by (simp add: image_writes_def)
            ultimately show ?thesis
              using refused [of ?R 3 e] Some admin' nonul f0 f1 f2 by simp
          next
            case c3: None
            note f3 = c3 [unfolded c_simps]
            show ?thesis
            proof (cases "os_fail w (?c 4)")
              case (Some e)
              have "setLockscreen w f = (w\<lparr>registry := ?R, trace := trace w @ net_session
                  # take (Suc 4) (image_writes f) @ deferred_closes 4\<rparr>, Return (Some e))"
                using admin' nonul f0 f1 f2 f3 Some [unfolded c_simps] by (simp add: setLockscreen_unfold)
              moreover have "policy_keys_only w ?R"
                using admin' nonul f0 f1 f2 f3 Some [unfolded c_simps] by (simp add: setLockscreen_unfold)
              moreover have "list_all (\<lambda>c. os_fail w c = None) (take 4 (image_writes f))"
                using admin' nonul f0 f1 f2 f3 by (simp add: image_writes_def)
              ultimately show ?thesis
                using refused [of ?R 4 e] Some admin' nonul f0 f1 f2 f3 by simp
            next
              case c4: None
              note f4 = c4 [unfolded c_simps]
              show ?thesis
              proof (cases "os_fail w (?c 5)")
                case (Some e)
                have "setLockscreen w f = (w\<lparr>registry := ?R, trace := trace w @ net_session
                    # take (Suc 5) (image_writes f) @ deferred_closes 5\<rparr>, Return (Some e))"
                  using admin' nonul f0 f1 f2 f3 f4 Some [unfolded c_simps] by (simp add: setLockscreen_unfold)
                moreover have "policy_keys_only w ?R"
                  using admin' nonul f0 f1 f2 f3 f4 Some [unfolded c_simps] by (simp add: setLockscreen_unfold)
                moreover have "list_all (\<lambda>c. os_fail w c = None) (take 5 (image_writes f))"
                  using admin' nonul f0 f1 f2 f3 f4 by (simp add: image_writes_def)
                ultimately show ?thesis
                  using refused [of ?R 5 e] Some admin' nonul f0 f1 f2 f3 f4 by simp
              next
                case c5: None
                note f5 = c5 [unfolded c_simps]
                have "setLockscreen w f = (w\<lparr>registry := ?R, trace := trace w @ net_session
                    # image_writes f @ deferred_closes 6\<rparr>, Return None)"
                  using admin' nonul f0 f1 f2 f3 f4 f5 by (simp add: setLockscreen_unfold)
                moreover have "policy_keys_only w ?R"
                  using admin' nonul f0 f1 f2 f3 f4 f5 by (simp add: setLockscreen_unfold)
                moreover have "list_all (\<lambda>c. os_fail w c = None) (image_writes f)"
                  using admin' nonul f0 f1 f2 f3 f4 f5 by (simp add: image_writes_def)
                ultimately show ?thesis
                  using completed [of ?R] nonul by simp
              qed
            qed
          qed
        qed
      qed
    qed
  qed
qed

lemma setLockscreen_relaunch:
  assumes "os_fail w net_session = Some e"
  shows "setLockscreen w f = (w\<lparr>trace := trace w @ relaunch_calls w\<rparr>, Exit (relaunch_status w))"
  using assms
  by (auto simp: setLockscreen_def isAdmin_def runAsAdmin_def Run_def Executable_def emit_def
      net_session_def start_elevated_def relaunch_calls_def relaunch_status_def
      split: option.splits)

lemma policy_keys_only_trace [simp]:
  "policy_keys_only (w\<lparr>trace := t\<rparr>) R = policy_keys_only w R"
  by (simp add: policy_keys_only_def)

lemma SetFromFile_cases [case_names invalid configured relaunch refused completed]:
  assumes inv: "CHR 0x00 \<in> set f \<Longrightarrow> P (w, Return (Some EINVAL))"
    and conf: "\<And>cs. \<lbrakk>CHR 0x00 \<notin> set f; lockscreen_configured w f; list_all is_query cs\<rbrakk>
      \<Longrightarrow> P (w\<lparr>trace := trace w @ cs @ [set_wallpaper f]\<rparr>, Return None)"
    and rel: "\<And>cs e. \<lbrakk>CHR 0x00 \<notin> set f; \<not> lockscreen_configured w f;
        list_all is_query cs; os_fail w net_session = Some e\<rbrakk>
      \<Longrightarrow> P (w\<lparr>trace := trace w @ cs @ relaunch_calls w\<rparr>, Exit (relaunch_status w))"
    and ref: "\<And>cs R n e. \<lbrakk>CHR 0x00 \<notin> set f; \<not> lockscreen_configured w f;
        list_all is_query cs; os_fail w net_session = None; policy_keys_only w R; n < 6;
        list_all (\<lambda>c. os_fail w c = None) (take n (image_writes f));
        os_fail w (image_writes f ! n) = Some e\<rbrakk>
      \<Longrightarrow> P (w\<lparr>registry := R, trace := trace w @ cs @ net_session
                  # take (Suc n) (image_writes f) @ deferred_closes n\<rparr>, Return (Some e))"
    and comp: "\<And>cs R. \<lbrakk>CHR 0x00 \<notin> set f; \<not> lockscreen_configured w f;
        list_all is_query cs; os_fail w net_session = None; policy_keys_only w R;
        list_all (\<lambda>c. os_fail w c = None) (image_writes f)\<rbrakk>
      \<Longrightarrow> P (w\<lparr>registry := R, trace := trace w @ cs @ net_session # image_writes f
                  @ deferred_closes 6 @ [set_wallpaper f]\<rparr>, Return None)"
  shows "P (SetFromFile w f)"
proof (cases "CHR 0x00 \<in> set f")
  case True
  then show ?thesis
    using inv by (simp add: SetFromFile_def UTF16PtrFromString_def)
next
  case nonul: False
  obtain cs where
    chk: "checkRegistryValues w f = (w\<lparr>trace := trace w @ cs\<rparr>, lockscreen_configured w f)"
    and q: "list_all is_query cs"
    using checkRegistryValues_result by blast
  let ?w1 = "w\<lparr>trace := trace w @ cs\<rparr>"
  show ?thesis
  proof (cases "lockscreen_configured w f")
    case True
    then have "SetFromFile w f = (w\<lparr>trace := trace w @ cs @ [set_wallpaper f]\<rparr>, Return None)"
      using nonul chk
      by (simp add: SetFromFile_def UTF16PtrFromString_def set_desk_wallpaper_def emit_def
          set_wallpaper_def)
    then show ?thesis
      using conf [OF nonul True q] by simp
  next
    case False
    let ?cont = "\<lambda>r. case r of
        (w2, Return (Some err)) \<Rightarrow> (w2, Return (Some err))
      | (w2, Return None) \<Rightarrow> set_desk_wallpaper w2 f
      | (w2, Exit c) \<Rightarrow> (w2, Exit c)
      | (w2, Panic m) \<Rightarrow> (w2, Panic m)"
    have sff: "SetFromFile w f = ?cont (setLockscreen ?w1 f)"
      using nonul chk False by (simp add: SetFromFile_def UTF16PtrFromString_def)
    show ?thesis
    proof (cases "os_fail w net_session")
      case (Some e)
      then have "setLockscreen ?w1 f
          = (?w1\<lparr>trace := trace ?w1 @ relaunch_calls ?w1\<rparr>, Exit (relaunch_status ?w1))"
        using setLockscreen_relaunch [of ?w1 e f] by simp
      then have "SetFromFile w f
          = (w\<lparr>trace := trace w @ cs @ relaunch_calls w\<rparr>, Exit (relaunch_status w))"
        using sff by (simp add: relaunch_calls_def relaunch_status_def)
      then show ?thesis
        using rel [OF nonul False q Some] by simp
    next
      case None
      then have admin: "os_fail ?w1 net_session = None"
        by simp
      have "P (?cont (setLockscreen ?w1 f))"
      proof (induction rule: setLockscreen_admin_cases [OF admin, case_names refused invalid completed])
        case (refused R n e)
        then show ?case
          using ref [of cs R n e] nonul False q None by simp
      next
        case (invalid R)
        then show ?case
          using nonul by simp
      next
        case (completed R)
        then show ?case
          using comp [of cs R] nonul False q None
          by (simp add: set_desk_wallpaper_def emit_def set_wallpaper_def)
      qed
      then show ?thesis
        using sff by simp
    qed
  qed
qed

section \<open>SetFromFile\<close>

lemma query_filters:
  assumes "list_all is_query cs"
  shows "filter is_elevation cs = []" "filter is_registry_write cs = []"
    "filter is_set_wallpaper cs = []"
proof -
  have "is_query c \<Longrightarrow> \<not> is_elevation c \<and> \<not> is_registry_write c \<and> \<not> is_set_wallpaper c"
    for c
    by (cases c) simp_all
  then show "filter is_elevation cs = []" "filter is_registry_write cs = []"
    "filter is_set_wallpaper cs = []"
    using assms by (auto simp: list_all_iff filter_empty_conv)
qed

lemma image_writes_filters [simp]:
  "filter is_registry_write (take n (image_writes f)) = take n (image_writes f)"
  "filter is_elevation (take n (image_writes f)) = []"
  "filter is_set_wallpaper (take n (image_writes f)) = []"
  "filter is_registry_write (image_writes f) = image_writes f"
  "filter is_elevation (image_writes f) = []"
  "filter is_set_wallpaper (image_writes f) = []"
proof -
  have all: "\<forall>c\<in>set (image_writes f). is_registry_write c \<and> \<not> is_elevation c \<and> \<not> is_set_wallpaper c"
    by (simp add: image_writes_def)
  then have "\<forall>c\<in>set (take n (image_writes f)).
      is_registry_write c \<and> \<not> is_elevation c \<and> \<not> is_set_wallpaper c"
    using set_take_subset [of n "image_writes f"] by blast
  then show "filter is_registry_write (take n (image_writes f)) = take n (image_writes f)"
    "filter is_elevation (take n (image_writes f)) = []"
    "filter is_set_wallpaper (take n (image_writes f)) = []"
    by (simp_all add: filter_empty_conv filter_id_conv)
  show "filter is_registry_write (image_writes f) = image_writes f"
    "filter is_elevation (image_writes f) = []"
    "filter is_set_wallpaper (image_writes f) = []"
    using all by (simp_all add: filter_empty_conv filter_id_conv)
qed

lemma deferred_closes_filters [simp]:
  "filter is_registry_write (deferred_closes n) = []"
  "filter is_elevation (deferred_closes n) = []"
  "filter is_set_wallpaper (deferred_closes n) = []"
  by (simp_all add: deferred_closes_def)

lemma relaunch_calls_filters [simp]:
  "filter is_registry_write (relaunch_calls w) = []"
  "filter is_elevation (relaunch_calls w) = relaunch_calls w"
  "filter is_set_wallpaper (relaunch_calls w) = []"
  by (simp_all add: relaunch_calls_def net_session_def start_elevated_def)

lemma single_call_filters [simp]:
  "is_elevation net_session" "\<not> is_registry_write net_session" "\<not> is_set_wallpaper net_session"
  "\<not> is_elevation (set_wallpaper f)" "\<not> is_registry_write (set_wallpaper f)"
  "is_set_wallpaper (set_wallpaper f)"
  by (simp_all add: net_session_def set_wallpaper_def)

text \<open>
  C6. When the lock-screen keys already hold the target configuration, \<open>SetFromFile\<close>
  makes no request of the elevation helper (no \<open>net session\<close>, no relaunch), creates no
  key and writes no value, and leaves the registry as it was.
\<close>

theorem SetFromFile_configured_no_elevation:
  assumes "lockscreen_configured w f"
  shows "filter is_elevation (new_calls w (fst (SetFromFile w f))) = []
    \<and> filter is_registry_write (new_calls w (fst (SetFromFile w f))) = []
    \<and> registry (fst (SetFromFile w f)) = registry w"
  using assms
  by - (rule SetFromFile_cases [where w = w and f = f and P = "\<lambda>r.
        filter is_elevation (new_calls w (fst r)) = []
      \<and> filter is_registry_write (new_calls w (fst r)) = []
      \<and> registry (fst r) = registry w"],
      simp_all add: query_filters)

lemma quiet_not_configured:
  "\<not> lockscreen_configured (quiet_machine\<lparr>os_fail := F\<rparr>) f"
  by (simp add: lockscreen_configured_def holds_string_def quiet_machine_def)

theorem SetFromFile_configured_no_elevation_witness:
  "lockscreen_configured configured_machine ''C:/w.png''
   \<and> filter is_elevation
        (new_calls configured_machine (fst (SetFromFile configured_machine ''C:/w.png''))) = []
   \<and> filter is_registry_write
        (new_calls configured_machine (fst (SetFromFile configured_machine ''C:/w.png''))) = []
   \<and> registry (fst (SetFromFile configured_machine ''C:/w.png'')) = registry configured_machine"
proof -
  have h: "lockscreen_configured configured_machine ''C:/w.png''"
    by (simp add: lockscreen_configured_def holds_string_def holds_integer_def
        configured_machine_def quiet_machine_def)
  from SetFromFile_configured_no_elevation [OF h] h show ?thesis
    by blast
qed

text \<open>
  C1, as stated, fails: in a process that is not elevated and whose lock screen is not
  configured, \<open>SetFromFile\<close> does not return nil to its caller, because \<open>runAsAdmin\<close> ends
  the process (\<open>os.Exit(0)\<close>) and the \<open>return nil\<close> after it is never reached.
\<close>

theorem SetFromFile_relaunch_exits_counterexample:
  "CHR 0x00 \<notin> set ''C:/w.png''
   \<and> \<not> lockscreen_configured unprivileged_machine ''C:/w.png''
   \<and> os_fail unprivileged_machine net_session = Some (Errno 2)
   \<and> snd (SetFromFile unprivileged_machine ''C:/w.png'') = Exit 0
   \<and> snd (SetFromFile unprivileged_machine ''C:/w.png'') \<noteq> Return None"
proof -
  have a: "CHR 0x00 \<notin> set ''C:/w.png''"
    by simp
  have b: "\<not> lockscreen_configured unprivileged_machine ''C:/w.png''"
    by (simp add: unprivileged_machine_def quiet_not_configured)
  have c: "os_fail unprivileged_machine net_session = Some (Errno 2)"
    by (simp add: unprivileged_machine_def)
  have st: "relaunch_status unprivileged_machine = 0"
    by (simp add: relaunch_status_def unprivileged_machine_def quiet_machine_def
        net_session_def start_elevated_def)
  have "snd (SetFromFile unprivileged_machine ''C:/w.png'') = Exit 0"
    using a b c st
    by - (rule SetFromFile_cases [where w = unprivileged_machine and f = "''C:/w.png''"
          and P = "\<lambda>r. snd r = Exit 0"], simp_all)
  then show ?thesis
    using a b c by simp
qed

text \<open>
  C1, amended. When the path converts, the lock screen is not configured and the process
  is not elevated, \<open>SetFromFile\<close> asks for the path of the executable and spawns the
  elevated instance; the process then ends, with status 0 after the spawn and with status
  1 when the path of the executable or the spawn failed. No registry key is created, no
  value is written, the desktop wallpaper is not set, and \<open>SetFromFile\<close> does not return.
\<close>

theorem SetFromFile_relaunch:
  assumes "CHR 0x00 \<notin> set f" and "\<not> lockscreen_configured w f"
    and "os_fail w net_session = Some e"
  shows "snd (SetFromFile w f)
      = Exit (if os_fail w OsExecutable = None
                \<and> os_fail w (start_elevated (exe_path w)) = None then 0 else 1)
    \<and> filter is_elevation (new_calls w (fst (SetFromFile w f)))
      = [net_session, OsExecutable]
        @ (if os_fail w OsExecutable = None then [start_elevated (exe_path w)] else [])
    \<and> filter is_registry_write (new_calls w (fst (SetFromFile w f))) = []
    \<and> filter is_set_wallpaper (new_calls w (fst (SetFromFile w f))) = []
    \<and> registry (fst (SetFromFile w f)) = registry w"
  using assms
  by - (rule SetFromFile_cases [where w = w and f = f and P = "\<lambda>r.
        snd r = Exit (if os_fail w OsExecutable = None
                \<and> os_fail w (start_elevated (exe_path w)) = None then 0 else 1)
      \<and> filter is_elevation (new_calls w (fst r))
        = [net_session, OsExecutable]
          @ (if os_fail w OsExecutable = None then [start_elevated (exe_path w)] else [])
      \<and> filter is_registry_write (new_calls w (fst r)) = []
      \<and> filter is_set_wallpaper (new_calls w (fst r)) = []
      \<and> registry (fst r) = registry w"],
      simp_all add: query_filters relaunch_status_def,
      simp_all add: relaunch_calls_def)

theorem SetFromFile_relaunch_witness:
  "CHR 0x00 \<notin> set ''C:/w.png''
   \<and> \<not> lockscreen_configured unprivileged_machine ''C:/w.png''
   \<and> os_fail unprivileged_machine net_session = Some (Errno 2)
   \<and> snd (SetFromFile unprivileged_machine ''C:/w.png'') = Exit 0
   \<and> filter is_elevation
        (new_calls unprivileged_machine (fst (SetFromFile unprivileged_machine ''C:/w.png'')))
      = [net_session, OsExecutable, start_elevated ''C:/app.exe'']
   \<and> registry (fst (SetFromFile unprivileged_machine ''C:/w.png''))
      = registry unprivileged_machine"
proof -
  have a: "CHR 0x00 \<notin> set ''C:/w.png''"
    by simp
  have b: "\<not> lockscreen_configured unprivileged_machine ''C:/w.png''"
    by (simp add: unprivileged_machine_def quiet_not_configured)
  have c: "os_fail unprivileged_machine net_session = Some (Errno 2)"
    by (simp add: unprivileged_machine_def)
  have d: "os_fail unprivileged_machine OsExecutable = None"
    "os_fail unprivileged_machine (start_elevated (exe_path unprivileged_machine)) = None"
    "exe_path unprivileged_machine = ''C:/app.exe''"
    by (simp_all add: unprivileged_machine_def quiet_machine_def net_session_def
        start_elevated_def)
  from SetFromFile_relaunch [OF a b c] show ?thesis
    using a b c d by simp
qed

section \<open>The desktop wallpaper request\<close>

lemma length_image_writes [simp]: "length (image_writes f) = 6"
  by (simp add: image_writes_def)

lemma refused_not_all_accepted:
  assumes "n < 6" and "os_fail w (image_writes f ! n) = Some e"
  shows "\<not> list_all (\<lambda>c. os_fail w c = None) (image_writes f)"
  using assms by (auto simp: list_all_length)

text \<open>
  C4, as stated, fails: when the lock-screen mutation ends with an error, \<open>SetFromFile\<close>
  returns that error and does not set the desktop wallpaper. Here the process is elevated
  and the creation of the policy key is refused.
\<close>

theorem SetFromFile_error_skips_wallpaper_counterexample:
  "CHR 0x00 \<notin> set ''C:/w.png''
   \<and> snd (SetFromFile locked_policy_machine ''C:/w.png'') = Return (Some (Errno 5))
   \<and> filter is_set_wallpaper
        (new_calls locked_policy_machine (fst (SetFromFile locked_policy_machine ''C:/w.png'')))
      = []"
proof -
  have a: "CHR 0x00 \<notin> set ''C:/w.png''"
    by simp
  have b: "\<not> lockscreen_configured locked_policy_machine f" for f
    by (simp add: locked_policy_machine_def quiet_not_configured)
  have c: "os_fail locked_policy_machine c = Some e \<Longrightarrow> e = Errno 5" for c e
    by (simp add: locked_policy_machine_def quiet_machine_def split: if_splits)
  have d: "\<not> list_all (\<lambda>c. os_fail locked_policy_machine c = None) (image_writes f)" for f
    by (simp add: locked_policy_machine_def quiet_machine_def image_writes_def)
  have e: "os_fail locked_policy_machine net_session = None"
    by (simp add: locked_policy_machine_def quiet_machine_def net_session_def)
  have "snd (SetFromFile locked_policy_machine ''C:/w.png'') = Return (Some (Errno 5))
    \<and> filter is_set_wallpaper
        (new_calls locked_policy_machine (fst (SetFromFile locked_policy_machine ''C:/w.png'')))
      = []"
    using a b d e
    by - (rule SetFromFile_cases [where w = locked_policy_machine and f = "''C:/w.png''"
          and P = "\<lambda>r. snd r = Return (Some (Errno 5))
            \<and> filter is_set_wallpaper (new_calls locked_policy_machine (fst r)) = []"],
        simp_all add: query_filters c)
  then show ?thesis
    using a by simp
qed

text \<open>
  C4, amended. For a path that converts to UTF-16, \<open>SetFromFile\<close> requests
  \<open>SPI_SETDESKWALLPAPER\<close> with the flags \<open>SPIF_UPDATEINIFILE | SPIF_SENDCHANGE\<close> (3) exactly
  when it returns nil, once, as its last request; that is when the lock-screen check
  matches, or the process is elevated and all six lock-screen requests are accepted.
  When the lock-screen mutation returns an error or the process exits for elevation, the
  request is not made.
\<close>

theorem SetFromFile_wallpaper_call:
  assumes "CHR 0x00 \<notin> set f"
  shows "filter is_set_wallpaper (new_calls w (fst (SetFromFile w f)))
      = (if snd (SetFromFile w f) = Return None
         then [SystemParametersInfoW spiSetDeskWallpaper uiParam (PvString f)
                 (spifUpdateINIFile OR spifSendChange)]
         else [])
    \<and> (snd (SetFromFile w f) = Return None
        \<longrightarrow> last (new_calls w (fst (SetFromFile w f)))
            = SystemParametersInfoW spiSetDeskWallpaper uiParam (PvString f)
                (spifUpdateINIFile OR spifSendChange))
    \<and> (snd (SetFromFile w f) = Return None
        \<longleftrightarrow> lockscreen_configured w f
            \<or> os_fail w net_session = None
              \<and> list_all (\<lambda>c. os_fail w c = None) (image_writes f))
    \<and> spifUpdateINIFile OR spifSendChange = (3 :: nat)"
proof -
  let ?call = "SystemParametersInfoW spiSetDeskWallpaper uiParam (PvString f)
    (spifUpdateINIFile OR spifSendChange)"
  let ?P = "\<lambda>r. filter is_set_wallpaper (new_calls w (fst r))
      = (if snd r = Return None then [?call] else [])
    \<and> (snd r = Return None \<longrightarrow> last (new_calls w (fst r)) = ?call)
    \<and> (snd r = Return None
        \<longleftrightarrow> lockscreen_configured w f
            \<or> os_fail w net_session = None
              \<and> list_all (\<lambda>c. os_fail w c = None) (image_writes f))"
  have "?P (SetFromFile w f)"
    using assms
    by - (rule SetFromFile_cases [where w = w and f = f and P = ?P],
        simp_all add: query_filters refused_not_all_accepted set_wallpaper_def)
  moreover have "spifUpdateINIFile OR spifSendChange = (3 :: nat)"
    by (simp add: spifUpdateINIFile_def spifSendChange_def)
  ultimately show ?thesis
    by blast
qed

theorem SetFromFile_wallpaper_call_witness:
  "CHR 0x00 \<notin> set ''C:/w.png''
   \<and> lockscreen_configured configured_machine ''C:/w.png''
   \<and> snd (SetFromFile configured_machine ''C:/w.png'') = Return None
   \<and> filter is_set_wallpaper
        (new_calls configured_machine (fst (SetFromFile configured_machine ''C:/w.png'')))
      = [SystemParametersInfoW 0x14 0 (PvString ''C:/w.png'') 3]"
proof -
  have a: "CHR 0x00 \<notin> set ''C:/w.png''"
    by simp
  have h: "lockscreen_configured configured_machine ''C:/w.png''"
    by (simp add: lockscreen_configured_def holds_string_def holds_integer_def
        configured_machine_def quiet_machine_def)
  have n: "spiSetDeskWallpaper = 0x14" "uiParam = 0"
    by (simp_all add: spiSetDeskWallpaper_def uiParam_def)
  from SetFromFile_wallpaper_call [OF a, of configured_machine] h a n show ?thesis
    by simp
qed

section \<open>SetMode\<close>

lemma style_no_NUL: "style_of mode = Some style \<Longrightarrow> CHR 0x00 \<notin> set style"
  by (cases mode) auto

lemma tile_no_NUL [simp]: "CHR 0x00 \<notin> set (tile_of mode)"
  by (simp add: tile_of_def)

lemmas SetMode_unfold = SetMode_def prims create_desktop_def write_tile_def write_style_def
  close_desktop_def desktop_values_def tile_written_def

lemma SetMode_cases [case_names create_refused tile_refused invalid_mode style_refused applied]:
  assumes cr: "\<And>e. os_fail w create_desktop = Some e
      \<Longrightarrow> P (w\<lparr>trace := trace w @ [create_desktop]\<rparr>, Return (Some e))"
    and tr: "\<And>e. \<lbrakk>os_fail w create_desktop = None;
        os_fail w (write_tile (tile_of mode)) = Some e\<rbrakk>
      \<Longrightarrow> P (w\<lparr>registry := (registry w)((CURRENT_USER, desktop) \<mapsto> desktop_values w),
               trace := trace w @ [create_desktop, write_tile (tile_of mode), close_desktop]\<rparr>,
             Return (Some e))"
    and im: "\<lbrakk>os_fail w create_desktop = None; os_fail w (write_tile (tile_of mode)) = None;
        style_of mode = None\<rbrakk>
      \<Longrightarrow> P (w\<lparr>registry := tile_written w mode,
               trace := trace w @ [create_desktop, write_tile (tile_of mode), close_desktop]\<rparr>,
             Panic ''invalid wallpaper mode'')"
    and sr: "\<And>style e. \<lbrakk>os_fail w create_desktop = None;
        os_fail w (write_tile (tile_of mode)) = None; style_of mode = Some style;
        os_fail w (write_style style) = Some e\<rbrakk>
      \<Longrightarrow> P (w\<lparr>registry := tile_written w mode,
               trace := trace w @ [create_desktop, write_tile (tile_of mode), write_style style,
                 close_desktop]\<rparr>,
             Return (Some e))"
    and ap: "\<And>style. \<lbrakk>os_fail w create_desktop = None;
        os_fail w (write_tile (tile_of mode)) = None; style_of mode = Some style;
        os_fail w (write_style style) = None\<rbrakk>
      \<Longrightarrow> P (run_deferred [(CURRENT_USER, desktop)]
             (SetFromFile (emit get_wallpaper (mode_written w mode style)) (wallpaper_path w)))"
  shows "P (SetMode w mode)"
proof (cases "os_fail w create_desktop")
  case (Some e)
  then have "SetMode w mode = (w\<lparr>trace := trace w @ [create_desktop]\<rparr>, Return (Some e))"
    by (simp add: SetMode_unfold)
  then show ?thesis
    using cr [OF Some] by simp
next
  case c: None
  show ?thesis
  proof (cases "os_fail w (write_tile (tile_of mode))")
    case (Some e)
    then have "SetMode w mode
        = (w\<lparr>registry := (registry w)((CURRENT_USER, desktop) \<mapsto> desktop_values w),
             trace := trace w @ [create_desktop, write_tile (tile_of mode), close_desktop]\<rparr>,
           Return (Some e))"
      using c by (simp add: SetMode_unfold)
    then show ?thesis
      using tr [OF c Some] by simp
  next
    case t: None
    show ?thesis
    proof (cases "style_of mode")
      case None
      then have "SetMode w mode
          = (w\<lparr>registry := tile_written w mode,
               trace := trace w @ [create_desktop, write_tile (tile_of mode), close_desktop]\<rparr>,
             Panic ''invalid wallpaper mode'')"
        using c t by (simp add: SetMode_unfold)
      then show ?thesis
        using im [OF c t None] by simp
    next
      case (Some style)
      note nz = style_no_NUL [OF Some]
      show ?thesis
      proof (cases "os_fail w (write_style style)")
        case e: (Some e)
        then have "SetMode w mode
            = (w\<lparr>registry := tile_written w mode,
                 trace := trace w @ [create_desktop, write_tile (tile_of mode),
                   write_style style, close_desktop]\<rparr>,
               Return (Some e))"
          using c t Some nz by (simp add: SetMode_unfold)
        then show ?thesis
          using sr [OF c t Some e] by simp
      next
        case s: None
        then have "SetMode w mode = run_deferred [(CURRENT_USER, desktop)]
            (SetFromFile (emit get_wallpaper (mode_written w mode style)) (wallpaper_path w))"
          using c t Some nz
          by (simp add: SetMode_def CreateKey_def SetStringValue_def set_value_def emit_def
              Let_def create_desktop_def write_tile_def write_style_def desktop_values_def
              Get_def mode_written_def get_wallpaper_def wallpaper_path_def)
        then show ?thesis
          using ap [OF c t Some s] by simp
      qed
    qed
  qed
qed

lemma style_table_iff: "(mode, style) \<in> set style_table \<longleftrightarrow> style_of mode = Some style"
  by (cases mode) (auto simp: style_table_def)

lemma unlisted_iff:
  "mode \<notin> {Center, Crop, Fit, Span, Stretch, Tile} \<longleftrightarrow> style_of mode = None"
  by (cases mode) auto

lemma unlisted_tile: "style_of mode = None \<Longrightarrow> tile_of mode = ''0''"
  by (cases mode) (auto simp: tile_of_def)

lemma run_deferred_snd [simp]: "snd (run_deferred ks r) = snd r"
  by (cases r; cases "snd r") (auto simp: run_deferred_def)

lemma run_deferred_fst:
  "fst (run_deferred ks r) =
     (fst r)\<lparr>trace := trace (fst r)
        @ (case snd r of Exit c \<Rightarrow> [] | _ \<Rightarrow> map (\<lambda>k. RegCloseKey (fst k) (snd k)) ks)\<rparr>"
  by (cases r; cases "snd r") (auto simp: run_deferred_def foldl_Close)

lemma SetFromFile_frame:
  "fst (SetFromFile w f)
     = w\<lparr>registry := registry (fst (SetFromFile w f)),
         trace := trace w @ new_calls w (fst (SetFromFile w f))\<rparr>
   \<and> policy_keys_only w (registry (fst (SetFromFile w f)))"
  by (rule SetFromFile_cases [where w = w and f = f and P = "\<lambda>r.
        fst r = w\<lparr>registry := registry (fst r), trace := trace w @ new_calls w (fst r)\<rparr>
      \<and> policy_keys_only w (registry (fst r))"])
    (simp_all add: policy_keys_only_def)

lemma SetMode_applied:
  assumes "style_of mode = Some style"
    and "os_fail w create_desktop = None"
    and "os_fail w (write_tile (tile_of mode)) = None"
    and "os_fail w (write_style style) = None"
  shows "SetMode w mode = run_deferred [(CURRENT_USER, desktop)]
      (SetFromFile (emit get_wallpaper (mode_written w mode style)) (wallpaper_path w))"
  using assms
  by - (rule SetMode_cases [where w = w and mode = mode and P = "\<lambda>r.
        r = run_deferred [(CURRENT_USER, desktop)]
          (SetFromFile (emit get_wallpaper (mode_written w mode style)) (wallpaper_path w))"],
      simp_all)

text \<open>
  C7. For a valid mode, once the key is created and \<open>TileWallpaper\<close> and \<open>WallpaperStyle\<close>
  are written (the three calls lead to the world \<open>mode_written\<close>), \<open>SetMode\<close> calls \<open>Get\<close>,
  which returns the current path without error, calls \<open>SetFromFile\<close> with that path in the
  world \<open>Get\<close> leaves, and returns what \<open>SetFromFile\<close> returns; only the deferred \<open>Close\<close>
  of the key follows.
\<close>

theorem SetMode_reapplies_wallpaper:
  assumes "style_of mode = Some style"
    and "os_fail w (RegCreateKey CURRENT_USER desktop SET_VALUE) = None"
    and "os_fail w (RegSetStringValue CURRENT_USER desktop ''TileWallpaper'' (tile_of mode)) = None"
    and "os_fail w (RegSetStringValue CURRENT_USER desktop ''WallpaperStyle'' style) = None"
  shows "fst (SetStringValue
            (fst (SetStringValue (fst (CreateKey w CURRENT_USER desktop SET_VALUE))
               (CURRENT_USER, desktop) ''TileWallpaper'' (tile_of mode)))
            (CURRENT_USER, desktop) ''WallpaperStyle'' style)
      = mode_written w mode style
    \<and> Get (mode_written w mode style)
      = (emit get_wallpaper (mode_written w mode style), Return (wallpaper_path w, None))
    \<and> SetMode w mode = run_deferred [(CURRENT_USER, desktop)]
        (SetFromFile (emit get_wallpaper (mode_written w mode style)) (wallpaper_path w))
    \<and> snd (SetMode w mode)
      = snd (SetFromFile (emit get_wallpaper (mode_written w mode style)) (wallpaper_path w))"
proof -
  note nz = style_no_NUL [OF assms(1)]
  have a: "fst (SetStringValue
            (fst (SetStringValue (fst (CreateKey w CURRENT_USER desktop SET_VALUE))
               (CURRENT_USER, desktop) ''TileWallpaper'' (tile_of mode)))
            (CURRENT_USER, desktop) ''WallpaperStyle'' style)
      = mode_written w mode style"
    using assms nz
    by (simp add: CreateKey_def SetStringValue_def set_value_def emit_def Let_def
        mode_written_def desktop_values_def create_desktop_def write_tile_def write_style_def)
  have b: "Get (mode_written w mode style)
      = (emit get_wallpaper (mode_written w mode style), Return (wallpaper_path w, None))"
    by (simp add: Get_def Let_def get_wallpaper_def wallpaper_path_def mode_written_def)
  have c: "SetMode w mode = run_deferred [(CURRENT_USER, desktop)]
        (SetFromFile (emit get_wallpaper (mode_written w mode style)) (wallpaper_path w))"
    using assms
    by (intro SetMode_applied) (simp_all add: create_desktop_def write_tile_def write_style_def)
  show ?thesis
    using a b c by simp
qed

theorem SetMode_reapplies_wallpaper_witness:
  "style_of Crop = Some ''10''
   \<and> os_fail quiet_machine (RegCreateKey CURRENT_USER desktop SET_VALUE) = None
   \<and> os_fail quiet_machine
        (RegSetStringValue CURRENT_USER desktop ''TileWallpaper'' (tile_of Crop)) = None
   \<and> os_fail quiet_machine (RegSetStringValue CURRENT_USER desktop ''WallpaperStyle'' ''10'') = None
   \<and> wallpaper_path quiet_machine = ''C:/w.png''
   \<and> snd (SetMode quiet_machine Crop)
      = snd (SetFromFile (emit get_wallpaper (mode_written quiet_machine Crop ''10''))
               ''C:/w.png'')"
proof -
  have h: "style_of Crop = Some ''10''"
    "os_fail quiet_machine (RegCreateKey CURRENT_USER desktop SET_VALUE) = None"
    "os_fail quiet_machine
        (RegSetStringValue CURRENT_USER desktop ''TileWallpaper'' (tile_of Crop)) = None"
    "os_fail quiet_machine (RegSetStringValue CURRENT_USER desktop ''WallpaperStyle'' ''10'') = None"
    by (simp_all add: quiet_machine_def)
  have "string_of_runes (Decode (spi_buffer quiet_machine)) = ''C:/w.png''"
    by code_simp
  then have p: "wallpaper_path quiet_machine = ''C:/w.png''"
    using padded_buffer_path [of "spi_buffer quiet_machine"]
    by (simp add: wallpaper_path_def quiet_machine_def)
  from SetMode_reapplies_wallpaper [OF h] h p show ?thesis
    by simp
qed

text \<open>
  C2. For a mode and its style code in the table of the spec, when the creation of the key
  and the two writes are accepted, the first three requests of \<open>SetMode\<close> are the creation
  of the key, the write of \<open>TileWallpaper\<close> (\<open>1\<close> for Tile, \<open>0\<close> otherwise) and the write of
  \<open>WallpaperStyle\<close> with the code of the table, and when \<open>SetMode\<close> ends the registry holds
  these two values, whatever the re-application of the wallpaper does afterwards.
\<close>

theorem SetMode_writes_style_table:
  assumes "(mode, style) \<in> set style_table"
    and "os_fail w (RegCreateKey CURRENT_USER desktop SET_VALUE) = None"
    and "os_fail w (RegSetStringValue CURRENT_USER desktop ''TileWallpaper''
           (if mode = Tile then ''1'' else ''0'')) = None"
    and "os_fail w (RegSetStringValue CURRENT_USER desktop ''WallpaperStyle'' style) = None"
  shows "(\<exists>vs. registry (fst (SetMode w mode)) (CURRENT_USER, desktop) = Some vs
            \<and> vs ''WallpaperStyle'' = Some (SZ style)
            \<and> vs ''TileWallpaper'' = Some (SZ (if mode = Tile then ''1'' else ''0'')))
    \<and> take 3 (new_calls w (fst (SetMode w mode)))
      = [RegCreateKey CURRENT_USER desktop SET_VALUE,
         RegSetStringValue CURRENT_USER desktop ''TileWallpaper''
           (if mode = Tile then ''1'' else ''0''),
         RegSetStringValue CURRENT_USER desktop ''WallpaperStyle'' style]"
proof -
  let ?w4 = "emit get_wallpaper (mode_written w mode style)"
  let ?r = "SetFromFile ?w4 (wallpaper_path w)"
  have st: "style_of mode = Some style"
    using assms(1) by (simp add: style_table_iff)
  have tile: "tile_of mode = (if mode = Tile then ''1'' else ''0'')"
    by (simp add: tile_of_def)
  have eq: "SetMode w mode = run_deferred [(CURRENT_USER, desktop)] ?r"
    using assms(2-4) tile
    by (intro SetMode_applied [OF st]) (simp_all add: create_desktop_def write_tile_def write_style_def)
  have frame: "fst ?r = ?w4\<lparr>registry := registry (fst ?r),
      trace := trace ?w4 @ new_calls ?w4 (fst ?r)\<rparr>"
    and keys: "policy_keys_only ?w4 (registry (fst ?r))"
    using SetFromFile_frame [of ?w4 "wallpaper_path w"] by simp_all
  have "registry (fst (SetMode w mode)) (CURRENT_USER, desktop)
      = registry ?w4 (CURRENT_USER, desktop)"
    using keys by (simp add: eq run_deferred_fst policy_keys_only_def)
  then have reg: "registry (fst (SetMode w mode)) (CURRENT_USER, desktop)
      = Some ((desktop_values w)(''TileWallpaper'' \<mapsto> SZ (tile_of mode),
                                 ''WallpaperStyle'' \<mapsto> SZ style))"
    by (simp add: emit_def mode_written_def)
  have "trace (fst (SetMode w mode))
      = trace ?w4 @ new_calls ?w4 (fst ?r)
        @ (case snd ?r of Exit c \<Rightarrow> [] | _ \<Rightarrow> [RegCloseKey CURRENT_USER desktop])"
    by (subst eq, subst run_deferred_fst, subst frame) (simp split: outcome.splits)
  then have "take 3 (new_calls w (fst (SetMode w mode)))
      = [create_desktop, write_tile (tile_of mode), write_style style]"
    by (simp add: new_calls_def emit_def mode_written_def)
  then show ?thesis
    using reg tile by (simp add: create_desktop_def write_tile_def write_style_def)
qed

theorem SetMode_writes_style_table_witness:
  "(Crop, ''10'') \<in> set style_table
   \<and> os_fail quiet_machine (RegCreateKey CURRENT_USER desktop SET_VALUE) = None
   \<and> os_fail quiet_machine (RegSetStringValue CURRENT_USER desktop ''TileWallpaper''
        (if Crop = Tile then ''1'' else ''0'')) = None
   \<and> os_fail quiet_machine (RegSetStringValue CURRENT_USER desktop ''WallpaperStyle'' ''10'') = None
   \<and> (\<exists>vs. registry (fst (SetMode quiet_machine Crop)) (CURRENT_USER, desktop) = Some vs
          \<and> vs ''WallpaperStyle'' = Some (SZ ''10'')
          \<and> vs ''TileWallpaper'' = Some (SZ ''0''))"
proof -
  have h: "(Crop, ''10'') \<in> set style_table"
    "os_fail quiet_machine (RegCreateKey CURRENT_USER desktop SET_VALUE) = None"
    "os_fail quiet_machine (RegSetStringValue CURRENT_USER desktop ''TileWallpaper''
        (if Crop = Tile then ''1'' else ''0'')) = None"
    "os_fail quiet_machine (RegSetStringValue CURRENT_USER desktop ''WallpaperStyle'' ''10'') = None"
    by (simp_all add: quiet_machine_def style_table_def)
  from SetMode_writes_style_table [OF h] h show ?thesis
    by simp
qed

text \<open>
  C10. For a mode outside the six constants, when the key is created, \<open>SetMode\<close> requests
  the write of \<open>TileWallpaper\<close> = \<open>0\<close> before it looks at the style; the panic fires exactly
  when that write is accepted, and then the registry holds \<open>TileWallpaper\<close> = \<open>0\<close>: the
  panic leaves this value written. Only the deferred \<open>Close\<close> follows.
\<close>

theorem SetMode_invalid_mode_tile_written:
  assumes "mode \<notin> {Center, Crop, Fit, Span, Stretch, Tile}"
    and "os_fail w (RegCreateKey CURRENT_USER desktop SET_VALUE) = None"
  shows "new_calls w (fst (SetMode w mode))
      = [RegCreateKey CURRENT_USER desktop SET_VALUE,
         RegSetStringValue CURRENT_USER desktop ''TileWallpaper'' ''0'',
         RegCloseKey CURRENT_USER desktop]
    \<and> (snd (SetMode w mode) = Panic ''invalid wallpaper mode''
        \<longleftrightarrow> os_fail w (RegSetStringValue CURRENT_USER desktop ''TileWallpaper'' ''0'') = None)
    \<and> (snd (SetMode w mode) = Panic ''invalid wallpaper mode''
        \<longrightarrow> (\<exists>vs. registry (fst (SetMode w mode)) (CURRENT_USER, desktop) = Some vs
               \<and> vs ''TileWallpaper'' = Some (SZ ''0'')))"
proof -
  have st: "style_of mode = None"
    using assms(1) by (simp only: unlisted_iff)
  note tile = unlisted_tile [OF st]
  show ?thesis
    using st assms(2)
    by - (rule SetMode_cases [where w = w and mode = mode and P = "\<lambda>r.
          new_calls w (fst r)
            = [RegCreateKey CURRENT_USER desktop SET_VALUE,
               RegSetStringValue CURRENT_USER desktop ''TileWallpaper'' ''0'',
               RegCloseKey CURRENT_USER desktop]
        \<and> (snd r = Panic ''invalid wallpaper mode''
            \<longleftrightarrow> os_fail w (RegSetStringValue CURRENT_USER desktop ''TileWallpaper'' ''0'') = None)
        \<and> (snd r = Panic ''invalid wallpaper mode''
            \<longrightarrow> (\<exists>vs. registry (fst r) (CURRENT_USER, desktop) = Some vs
                   \<and> vs ''TileWallpaper'' = Some (SZ ''0'')))"],
        simp_all add: tile create_desktop_def write_tile_def close_desktop_def tile_written_def)
qed

theorem SetMode_invalid_mode_tile_written_witness:
  "Unlisted 7 \<notin> {Center, Crop, Fit, Span, Stretch, Tile}
   \<and> os_fail quiet_machine (RegCreateKey CURRENT_USER desktop SET_VALUE) = None
   \<and> snd (SetMode quiet_machine (Unlisted 7)) = Panic ''invalid wallpaper mode''
   \<and> (\<exists>vs. registry (fst (SetMode quiet_machine (Unlisted 7))) (CURRENT_USER, desktop) = Some vs
          \<and> vs ''TileWallpaper'' = Some (SZ ''0''))"
proof -
  have h: "Unlisted 7 \<notin> {Center, Crop, Fit, Span, Stretch, Tile}"
    "os_fail quiet_machine (RegCreateKey CURRENT_USER desktop SET_VALUE) = None"
    by (simp_all add: quiet_machine_def)
  have t: "os_fail quiet_machine (RegSetStringValue CURRENT_USER desktop ''TileWallpaper'' ''0'')
      = None"
    by (simp add: quiet_machine_def)
  from SetMode_invalid_mode_tile_written [OF h] h t show ?thesis
    by simp
qed

text \<open>
  C3, as stated, fails: a mode outside the six constants does not always end in a panic.
  When the creation of the key is refused, \<open>SetMode\<close> returns that error to its caller,
  before the mode is looked at.
\<close>

theorem SetMode_invalid_mode_returns_error_counterexample:
  "Unlisted 7 \<notin> {Center, Crop, Fit, Span, Stretch, Tile}
   \<and> snd (SetMode locked_desktop_machine (Unlisted 7)) = Return (Some (Errno 5))
   \<and> snd (SetMode locked_desktop_machine (Unlisted 7)) \<noteq> Panic ''invalid wallpaper mode''"
proof -
  have "os_fail locked_desktop_machine create_desktop = Some (Errno 5)"
    by (simp add: locked_desktop_machine_def create_desktop_def)
  then have "snd (SetMode locked_desktop_machine (Unlisted 7)) = Return (Some (Errno 5))"
    by - (rule SetMode_cases [where w = locked_desktop_machine and mode = "Unlisted 7"
          and P = "\<lambda>r. snd r = Return (Some (Errno 5))"], simp_all)
  then show ?thesis
    by simp
qed

text \<open>
  C3, amended. For a mode outside the six constants, \<open>SetMode\<close> never requests a write of
  \<open>WallpaperStyle\<close>, leaves that value as it was, and never returns nil: it returns the
  error of the creation of the key or of the write of \<open>TileWallpaper\<close> when one of them is
  refused, and panics with \<open>invalid wallpaper mode\<close> otherwise.
\<close>

theorem SetMode_invalid_mode:
  assumes "mode \<notin> {Center, Crop, Fit, Span, Stretch, Tile}"
  shows "filter is_style_write (new_calls w (fst (SetMode w mode))) = []
    \<and> (case registry (fst (SetMode w mode)) (CURRENT_USER, desktop) of
          None \<Rightarrow> None | Some vs \<Rightarrow> vs ''WallpaperStyle'')
      = (case registry w (CURRENT_USER, desktop) of
          None \<Rightarrow> None | Some vs \<Rightarrow> vs ''WallpaperStyle'')
    \<and> snd (SetMode w mode)
      = (case os_fail w (RegCreateKey CURRENT_USER desktop SET_VALUE) of
           Some e \<Rightarrow> Return (Some e)
         | None \<Rightarrow>
             (case os_fail w (RegSetStringValue CURRENT_USER desktop ''TileWallpaper'' ''0'') of
                Some e \<Rightarrow> Return (Some e)
              | None \<Rightarrow> Panic ''invalid wallpaper mode''))
    \<and> snd (SetMode w mode) \<noteq> Return None"
proof -
  have st: "style_of mode = None"
    using assms(1) by (simp only: unlisted_iff)
  note tile = unlisted_tile [OF st]
  show ?thesis
    using st
    by - (rule SetMode_cases [where w = w and mode = mode and P = "\<lambda>r.
          filter is_style_write (new_calls w (fst r)) = []
        \<and> (case registry (fst r) (CURRENT_USER, desktop) of
              None \<Rightarrow> None | Some vs \<Rightarrow> vs ''WallpaperStyle'')
          = (case registry w (CURRENT_USER, desktop) of
              None \<Rightarrow> None | Some vs \<Rightarrow> vs ''WallpaperStyle'')
        \<and> snd r
          = (case os_fail w (RegCreateKey CURRENT_USER desktop SET_VALUE) of
               Some e \<Rightarrow> Return (Some e)
             | None \<Rightarrow>
                 (case os_fail w (RegSetStringValue CURRENT_USER desktop ''TileWallpaper'' ''0'') of
                    Some e \<Rightarrow> Return (Some e)
                  | None \<Rightarrow> Panic ''invalid wallpaper mode''))
        \<and> snd r \<noteq> Return None"],
        simp_all add: tile create_desktop_def write_tile_def close_desktop_def tile_written_def
          desktop_values_def split: option.splits)
qed

theorem SetMode_invalid_mode_witness:
  "Unlisted 7 \<notin> {Center, Crop, Fit, Span, Stretch, Tile}
   \<and> filter is_style_write (new_calls quiet_machine (fst (SetMode quiet_machine (Unlisted 7)))) = []
   \<and> snd (SetMode quiet_machine (Unlisted 7)) = Panic ''invalid wallpaper mode''"
proof -
  have h: "Unlisted 7 \<notin> {Center, Crop, Fit, Span, Stretch, Tile}"
    by simp
  have t: "os_fail quiet_machine c = None" for c
    by (simp add: quiet_machine_def)
  from SetMode_invalid_mode [OF h, of quiet_machine] h show ?thesis
    by (simp add: t)
qed

section \<open>Refused registry requests\<close>

lemma image_writes_prefix [simp]:
  assumes "n < 6"
  shows "butlast (take (Suc n) (image_writes f)) = take n (image_writes f)"
    and "last (take (Suc n) (image_writes f)) = image_writes f ! n"
    and "take (Suc n) (image_writes f) \<noteq> []"
  using assms by (simp_all add: take_Suc_conv_app_nth)

lemma all_accepted_butlast_last:
  assumes "list_all P xs" and "xs \<noteq> []"
  shows "list_all P (butlast xs)" and "P (last xs)"
  using assms by (auto simp: list_all_iff dest: in_set_butlastD)

lemma refusal_returned_setLockscreen: "refusal_returned w (setLockscreen w f)"
proof (cases "os_fail w net_session")
  case (Some e)
  then show ?thesis
    by (simp add: setLockscreen_relaunch refusal_returned_def registry_writes_def)
next
  case None
  show ?thesis
  proof (induction rule: setLockscreen_admin_cases [OF None, case_names refused invalid completed])
    case (refused R n e)
    then show ?case
      by (simp add: refusal_returned_def registry_writes_def)
  next
    case (invalid R)
    have "take 1 (image_writes f) = [image_writes f ! 0]"
      by (simp add: image_writes_def)
    then have "filter is_registry_write (take 1 (image_writes f)) = [image_writes f ! 0]"
      using image_writes_filters(1) [of 1 f] by simp
    then show ?case
      using invalid by (simp add: refusal_returned_def registry_writes_def del: image_writes_filters)
  next
    case (completed R)
    have "image_writes f \<noteq> []"
      by (simp add: image_writes_def)
    then show ?case
      using completed all_accepted_butlast_last [of "\<lambda>c. os_fail w c = None" "image_writes f"]
      by (simp add: refusal_returned_def registry_writes_def)
  qed
qed

lemma refusal_returned_SetFromFile: "refusal_returned w (SetFromFile w f)"
proof (induction rule: SetFromFile_cases
    [case_names invalid configured relaunch refused completed])
  case invalid
  then show ?case
    by (simp add: refusal_returned_def registry_writes_def)
next
  case (configured cs)
  then show ?case
    by (simp add: refusal_returned_def registry_writes_def query_filters)
next
  case (relaunch cs e)
  then show ?case
    by (simp add: refusal_returned_def registry_writes_def query_filters)
next
  case (refused cs R n e)
  then show ?case
    by (simp add: refusal_returned_def registry_writes_def query_filters)
next
  case (completed cs R)
  have "image_writes f \<noteq> []"
    by (simp add: image_writes_def)
  then show ?case
    using completed all_accepted_butlast_last [of "\<lambda>c. os_fail w c = None" "image_writes f"]
    by (simp add: refusal_returned_def registry_writes_def query_filters)
qed

lemma SetMode_call_kinds [simp]:
  "is_registry_write create_desktop" "is_registry_write (write_tile t)"
  "is_registry_write (write_style s)" "\<not> is_registry_write close_desktop"
  "\<not> is_registry_write get_wallpaper"
  by (simp_all add: create_desktop_def write_tile_def write_style_def close_desktop_def
      get_wallpaper_def)

lemma refusal_returned_SetMode: "refusal_returned w (SetMode w mode)"
proof (induction rule: SetMode_cases
    [case_names create_refused tile_refused invalid_mode style_refused applied])
  case (create_refused e)
  then show ?case
    by (simp add: refusal_returned_def registry_writes_def)
next
  case (tile_refused e)
  then show ?case
    by (simp add: refusal_returned_def registry_writes_def)
next
  case invalid_mode
  then show ?case
    by (simp add: refusal_returned_def registry_writes_def)
next
  case (style_refused style e)
  then show ?case
    by (simp add: refusal_returned_def registry_writes_def)
next
  case (applied style)
  let ?w4 = "emit get_wallpaper (mode_written w mode style)"
  let ?r = "SetFromFile ?w4 (wallpaper_path w)"
  let ?ws = "registry_writes ?w4 (fst ?r)"
  let ?first = "[create_desktop, write_tile (tile_of mode), write_style style]"
  have frame: "fst ?r = ?w4\<lparr>registry := registry (fst ?r),
      trace := trace ?w4 @ new_calls ?w4 (fst ?r)\<rparr>"
    using SetFromFile_frame [of ?w4 "wallpaper_path w"] by simp
  have "trace (fst (run_deferred [(CURRENT_USER, desktop)] ?r))
      = trace ?w4 @ new_calls ?w4 (fst ?r)
        @ (case snd ?r of Exit c \<Rightarrow> [] | _ \<Rightarrow> [close_desktop])"
    by (subst run_deferred_fst, subst frame)
      (simp add: close_desktop_def split: outcome.splits)
  then have ws: "registry_writes w (fst (run_deferred [(CURRENT_USER, desktop)] ?r))
      = ?first @ ?ws"
    by (simp add: registry_writes_def new_calls_def emit_def mode_written_def
        split: outcome.splits)
  have inner: "list_all (\<lambda>c. os_fail w c = None) (butlast ?ws)"
    "?ws = [] \<or> (case os_fail w (last ?ws) of None \<Rightarrow> True
        | Some e \<Rightarrow> snd ?r = Return (Some e))"
  proof -
    have os: "os_fail ?w4 = os_fail w"
      by (simp add: emit_def mode_written_def)
    have "refusal_returned ?w4 ?r"
      by (rule refusal_returned_SetFromFile)
    then have "list_all (\<lambda>c. os_fail w c = None) (butlast ?ws)
      \<and> (?ws = [] \<or> (case os_fail w (last ?ws) of None \<Rightarrow> True
          | Some e \<Rightarrow> snd ?r = Return (Some e)))"
      unfolding refusal_returned_def Let_def os .
    then show "list_all (\<lambda>c. os_fail w c = None) (butlast ?ws)"
      and "?ws = [] \<or> (case os_fail w (last ?ws) of None \<Rightarrow> True
          | Some e \<Rightarrow> snd ?r = Return (Some e))"
      by blast+
  qed
  show ?case
  proof (cases "?ws = []")
    case True
    then show ?thesis
      using applied ws by (simp add: refusal_returned_def)
  next
    case False
    then have "butlast (?first @ ?ws) = ?first @ butlast ?ws"
      and "last (?first @ ?ws) = last ?ws"
      by (simp_all add: butlast_append)
    then show ?thesis
      using applied ws inner False
      by (simp add: refusal_returned_def Let_def split: option.splits)
  qed
qed

text \<open>
  C5, as stated, fails: not every failure of a call to the operating system reaches the
  caller. In \<open>SetFromFile\<close>, the registry open of \<open>checkRegistryValues\<close> fails on a machine
  without the policy key, and \<open>SetFromFile\<close> returns nil; in \<open>Get\<close>, a refused
  \<open>SystemParametersInfoW\<close> is followed by a nil error.
\<close>

theorem failed_open_not_returned_counterexample:
  "checkRegistryValues quiet_machine ''C:/w.png''
     = (quiet_machine\<lparr>trace := [RegOpenKey LOCAL_MACHINE personalization QUERY_VALUE]\<rparr>, False)
   \<and> snd (OpenKey quiet_machine LOCAL_MACHINE personalization QUERY_VALUE) = Inl ErrNotExist
   \<and> snd (SetFromFile quiet_machine ''C:/w.png'') = Return None
   \<and> os_fail deaf_machine get_wallpaper = Some (Errno 1)
   \<and> snd (Get deaf_machine) = Return ([], None)"
proof -
  have a: "checkRegistryValues quiet_machine ''C:/w.png''
     = (quiet_machine\<lparr>trace := [RegOpenKey LOCAL_MACHINE personalization QUERY_VALUE]\<rparr>, False)"
    by (simp add: checkRegistryValues_def go_range_def expectedValues_def permute.simps
        quiet_machine_def OpenKey_def emit_def Let_def)
  have b: "snd (OpenKey quiet_machine LOCAL_MACHINE personalization QUERY_VALUE) = Inl ErrNotExist"
    by (simp add: OpenKey_def Let_def quiet_machine_def)
  have q: "os_fail quiet_machine c = None" for c
    by (simp add: quiet_machine_def)
  have c: "snd (SetFromFile quiet_machine ''C:/w.png'') = Return None"
    by (rule SetFromFile_cases [where w = quiet_machine and f = "''C:/w.png''"
          and P = "\<lambda>r. snd r = Return None"]) (simp_all add: q)
  have d: "os_fail deaf_machine get_wallpaper = Some (Errno 1)"
    by (simp add: deaf_machine_def)
  have e: "snd (Get deaf_machine) = Return ([], None)"
    using padded_buffer_path [of "[]"]
    by (simp add: Get_def Let_def deaf_machine_def string_of_runes_def)
  show ?thesis
    using a b c d e by simp
qed

text \<open>
  C5, amended. In \<open>setLockscreen\<close>, \<open>SetFromFile\<close> and \<open>SetMode\<close>, a refused creation of a
  registry key or write of a registry value is returned to the caller as it is, and no
  further creation or write is requested after it (no retry); a failed conversion of the
  path to UTF-16 makes \<open>SetFromFile\<close> return \<open>EINVAL\<close> before any request to the operating
  system. The other failures are not returned: a failed open or read in
  \<open>checkRegistryValues\<close> makes the check false, and the result of
  \<open>SystemParametersInfoW\<close> is not looked at.
\<close>

theorem refused_registry_write_returned:
  "refusal_returned w (setLockscreen w f)
   \<and> refusal_returned w (SetFromFile w f)
   \<and> refusal_returned w (SetMode w mode)
   \<and> (CHR 0x00 \<in> set f \<longrightarrow> SetFromFile w f = (w, Return (Some EINVAL)))"
  using refusal_returned_setLockscreen refusal_returned_SetFromFile refusal_returned_SetMode
  by (simp add: SetFromFile_def UTF16PtrFromString_def)

theorem refused_registry_write_returned_witness:
  "CHR 0x00 \<in> set [CHR ''a'', CHR 0x00]
   \<and> SetFromFile locked_policy_machine [CHR ''a'', CHR 0x00]
     = (locked_policy_machine, Return (Some EINVAL))
   \<and> refusal_returned locked_policy_machine
        (SetFromFile locked_policy_machine [CHR ''a'', CHR 0x00])"
proof -
  have h: "CHR 0x00 \<in> set [CHR ''a'', CHR 0x00]"
    by simp
  from refused_registry_write_returned [of locked_policy_machine "[CHR ''a'', CHR 0x00]" Crop] h
  show ?thesis
    by blast
qed

end
